theory Spec2Isabelle
  imports Main "HOL-Library.Sublist"
begin

section \<open>Strings\<close>

text \<open>
  Python's \<^verbatim>\<open>str\<close> is modelled by \<^typ>\<open>string\<close>: a list of characters with code
  points below 256. \<^verbatim>\<open>str.strip()\<close> without an argument removes the characters
  for which \<^verbatim>\<open>str.isspace\<close> holds from both ends; below 256 these are the code
  points 0x09 to 0x0D, 0x1C to 0x20, 0x85 and 0xA0.
\<close>

definition isspace :: "char \<Rightarrow> bool" where
  "isspace c \<longleftrightarrow> c \<in> set [CHR 0x09, CHR 0x0A, CHR 0x0B, CHR 0x0C, CHR 0x0D,
     CHR 0x1C, CHR 0x1D, CHR 0x1E, CHR 0x1F, CHR 0x20, CHR 0x85, CHR 0xA0]"

definition str_strip :: "string \<Rightarrow> string" where
  "str_strip s = rev (dropWhile isspace (rev (dropWhile isspace s)))"

text \<open>
  \<^verbatim>\<open>s.replace(old, new)\<close> where \<^verbatim>\<open>old\<close> and \<^verbatim>\<open>new\<close> are one character long,
  the only form the program calls.
\<close>

definition str_replace :: "char \<Rightarrow> char \<Rightarrow> string \<Rightarrow> string" where
  "str_replace old new s = map (\<lambda>c. if c = old then new else c) s"

section \<open>Name sanitization\<close>

text \<open>
  \<^verbatim>\<open>
  def format_name(name: str) -> str:
      name = (
          name.strip()
          .replace("/", "_").replace("\\", "_")
          .replace('"', "_").replace("'", "_")
      )
      return "__" if name == ".." else name
  \<close>
\<close>

definition format_name :: "string \<Rightarrow> string" where
  "format_name name =
     (let name = str_replace (CHR 0x27) (CHR ''_'')
                   (str_replace (CHR 0x22) (CHR ''_'')
                     (str_replace (CHR 0x5C) (CHR ''_'')
                       (str_replace (CHR ''/'') (CHR ''_'') (str_strip name))))
      in if name = ''..'' then ''__'' else name)"

text \<open>The characters the sanitization is meant to exclude: slash, backslash, double
  quote and single quote.\<close>

definition unsafe_char :: "char \<Rightarrow> bool" where
  "unsafe_char c \<longleftrightarrow> c = CHR ''/'' \<or> c = CHR 0x5C \<or> c = CHR 0x22 \<or> c = CHR 0x27"

section \<open>Errors\<close>

text \<open>
  The exceptions the modelled functions raise, as values. \<open>KeyError k\<close> is a subscript
  \<^verbatim>\<open>d[k]\<close> on a dictionary without the key \<open>k\<close>; \<open>StopIteration\<close> is \<^verbatim>\<open>next\<close> on an
  exhausted iterator; \<open>Exception m\<close> is \<^verbatim>\<open>raise Exception(m)\<close>; the others are the
  \<^verbatim>\<open>OSError\<close>s of the file operations, a failed \<^verbatim>\<open>urlopen\<close> or read of its response,
  and \<^verbatim>\<open>zipfile.BadZipFile\<close>.
\<close>

datatype error =
    KeyError string
  | KeyErrorInt int
  | StopIteration
  | Exception string
  | FileExistsError
  | FileNotFoundError
  | NotADirectoryError
  | PermissionError
  | URLError
  | BadZipFile

section \<open>Rule evaluation\<close>

text \<open>
  A rule of a library entry is a JSON object with the keys \<^verbatim>\<open>action\<close> and \<^verbatim>\<open>os\<close>; the
  value at \<^verbatim>\<open>os\<close> is an object read at the key \<^verbatim>\<open>name\<close>. A field is \<open>None\<close> when the
  key is absent.
\<close>

record os_obj =
  os_name :: "string option"

record rule =
  action :: "string option"
  os :: "os_obj option"

text \<open>
  \<^verbatim>\<open>
  def allowed_by_rules(rules: list[dict]) -> bool:
      allowed = False
      for rule in rules:
          if rule["action"] == "allow":
              if "os" in rule and rule["os"]["name"] == "windows":
                  return True
              elif "os" not in rule:
                  allowed = True
          elif rule["action"] == "disallow":
              if "os" in rule and rule["os"]["name"] == "windows":
                  return False
              elif "os" not in rule:
                  allowed = False
      return allowed
  \<close>
  The loop is \<open>allowed_loop\<close>, with the running flag as its first argument.
\<close>

fun allowed_loop :: "bool \<Rightarrow> rule list \<Rightarrow> error + bool" where
  "allowed_loop allowed [] = Inr allowed"
| "allowed_loop allowed (rule # rest) =
     (case action rule of
        None \<Rightarrow> Inl (KeyError ''action'')
      | Some a \<Rightarrow>
          if a = ''allow'' then
            (case os rule of
               Some c \<Rightarrow>
                 (case os_name c of
                    None \<Rightarrow> Inl (KeyError ''name'')
                  | Some n \<Rightarrow> if n = ''windows'' then Inr True else allowed_loop allowed rest)
             | None \<Rightarrow> allowed_loop True rest)
          else if a = ''disallow'' then
            (case os rule of
               Some c \<Rightarrow>
                 (case os_name c of
                    None \<Rightarrow> Inl (KeyError ''name'')
                  | Some n \<Rightarrow> if n = ''windows'' then Inr False else allowed_loop allowed rest)
             | None \<Rightarrow> allowed_loop False rest)
          else allowed_loop allowed rest)"

definition allowed_by_rules :: "rule list \<Rightarrow> error + bool" where
  "allowed_by_rules rules = allowed_loop False rules"

subsection \<open>The evaluator as the specification words it\<close>

text \<open>
  The single target platform of the program.
\<close>

definition target_platform :: string where
  "target_platform = ''windows''"

text \<open>
  A rule as the data model has it: the action is allow or disallow, and the OS constraint,
  when there is one, is a platform name.
\<close>

definition allows :: "rule \<Rightarrow> bool" where
  "allows r \<longleftrightarrow> action r = Some ''allow''"

definition disallows :: "rule \<Rightarrow> bool" where
  "disallows r \<longleftrightarrow> action r = Some ''disallow''"

definition constrained :: "rule \<Rightarrow> bool" where
  "constrained r \<longleftrightarrow> os r \<noteq> None"

definition matches :: "string \<Rightarrow> rule \<Rightarrow> bool" where
  "matches target r \<longleftrightarrow> (case os r of None \<Rightarrow> False | Some c \<Rightarrow> os_name c = Some target)"

definition wf_rule :: "rule \<Rightarrow> bool" where
  "wf_rule r \<longleftrightarrow> (allows r \<or> disallows r) \<and>
     (case os r of None \<Rightarrow> True | Some c \<Rightarrow> os_name c \<noteq> None)"

text \<open>
  The six cases of the specification's step 2, for one rule and the running flag: the
  rule either ends the evaluation with a result or continues it with a flag.
\<close>

datatype step = Return bool | Continue bool

definition rule_step :: "string \<Rightarrow> bool \<Rightarrow> rule \<Rightarrow> step" where
  "rule_step target allowed r =
     (if allows r \<and> constrained r \<and> matches target r then Return True
      else if allows r \<and> \<not> constrained r then Continue True
      else if allows r \<and> constrained r \<and> \<not> matches target r then Continue allowed
      else if disallows r \<and> constrained r \<and> matches target r then Return False
      else if disallows r \<and> \<not> constrained r then Continue False
      else Continue allowed)"

fun Allowed_from :: "bool \<Rightarrow> rule list \<Rightarrow> string \<Rightarrow> bool" where
  "Allowed_from allowed [] target = allowed"
| "Allowed_from allowed (r # rs) target =
     (case rule_step target allowed r of
        Return b \<Rightarrow> b
      | Continue allowed' \<Rightarrow> Allowed_from allowed' rs target)"

definition Allowed :: "rule list \<Rightarrow> string \<Rightarrow> bool" where
  "Allowed rules target = Allowed_from False rules target"

text \<open>
  What the algorithm amounts to. The first rule whose constraint matches the target decides;
  when no rule matches, the last rule without a constraint decides, and the result is false
  when there is none.
\<close>

definition decided_by :: "string \<Rightarrow> rule list \<Rightarrow> bool" where
  "decided_by target rules =
     (case List.find (matches target) rules of
        Some r \<Rightarrow> allows r
      | None \<Rightarrow>
          (case List.find (\<lambda>r. \<not> constrained r) (rev rules) of
             Some r \<Rightarrow> allows r
           | None \<Rightarrow> False))"

section \<open>Library URLs and the classpath\<close>

text \<open>
  A library entry is a JSON object; the keys the program reads are \<^verbatim>\<open>rules\<close> and
  \<^verbatim>\<open>downloads\<close>, under the latter \<^verbatim>\<open>classifiers\<close> (an object keyed by classifier name) and
  \<^verbatim>\<open>artifact\<close>, and \<^verbatim>\<open>url\<close> in an artifact. A field is \<open>None\<close> when the key is absent.
\<close>

record artifact_obj =
  url :: "string option"

record downloads_obj =
  classifiers :: "(string \<rightharpoonup> artifact_obj) option"
  artifact :: "artifact_obj option"

record library =
  rules :: "rule list option"
  downloads :: "downloads_obj option"

text \<open>
  \<^verbatim>\<open>
  def get_library_urls(*args) -> list[str]:
      result = []
      for library in args:
          if "rules" in library and not allowed_by_rules(library["rules"]):
              continue
          if (
              "classifiers" in library["downloads"]
              and "natives-windows" in library["downloads"]["classifiers"]
          ):
              result.append(library["downloads"]
                            ["classifiers"]["natives-windows"]["url"])
          if "artifact" in library["downloads"]:
              result.append(library["downloads"]["artifact"]["url"])
      return result
  \<close>
\<close>

definition skipped_by_rules :: "library \<Rightarrow> error + bool" where
  \<comment> \<open>\<^verbatim>\<open>"rules" in library and not allowed_by_rules(library["rules"])\<close>\<close>
  "skipped_by_rules library =
     (case rules library of
        None \<Rightarrow> Inr False
      | Some rs \<Rightarrow> (case allowed_by_rules rs of Inl e \<Rightarrow> Inl e | Inr b \<Rightarrow> Inr (\<not> b)))"

definition get_url :: "artifact_obj \<Rightarrow> error + string" where
  \<comment> \<open>\<^verbatim>\<open>a["url"]\<close>\<close>
  "get_url a = (case url a of None \<Rightarrow> Inl (KeyError ''url'') | Some u \<Rightarrow> Inr u)"

definition append_native :: "string list \<Rightarrow> downloads_obj \<Rightarrow> error + string list" where
  \<comment> \<open>the first \<^verbatim>\<open>if\<close> after the rules check\<close>
  "append_native result d =
     (case classifiers d of
        None \<Rightarrow> Inr result
      | Some cs \<Rightarrow>
          (case cs ''natives-windows'' of
             None \<Rightarrow> Inr result
           | Some a \<Rightarrow> (case get_url a of Inl e \<Rightarrow> Inl e | Inr u \<Rightarrow> Inr (result @ [u]))))"

definition append_artifact :: "string list \<Rightarrow> downloads_obj \<Rightarrow> error + string list" where
  \<comment> \<open>the second \<^verbatim>\<open>if\<close>\<close>
  "append_artifact result d =
     (case artifact d of
        None \<Rightarrow> Inr result
      | Some a \<Rightarrow> (case get_url a of Inl e \<Rightarrow> Inl e | Inr u \<Rightarrow> Inr (result @ [u])))"

fun get_library_urls_loop :: "string list \<Rightarrow> library list \<Rightarrow> error + string list" where
  "get_library_urls_loop result [] = Inr result"
| "get_library_urls_loop result (library # args) =
     (case skipped_by_rules library of
        Inl e \<Rightarrow> Inl e
      | Inr True \<Rightarrow> get_library_urls_loop result args
      | Inr False \<Rightarrow>
          (case downloads library of
             None \<Rightarrow> Inl (KeyError ''downloads'')
           | Some d \<Rightarrow>
               (case append_native result d of
                  Inl e \<Rightarrow> Inl e
                | Inr result1 \<Rightarrow>
                    (case append_artifact result1 d of
                       Inl e \<Rightarrow> Inl e
                     | Inr result2 \<Rightarrow> get_library_urls_loop result2 args))))"

definition get_library_urls :: "library list \<Rightarrow> error + string list" where
  "get_library_urls args = get_library_urls_loop [] args"

text \<open>
  The same loop without the accumulator: what one entry contributes, and the contributions
  of a list in order. The first error ends both.
\<close>

definition library_contribution :: "library \<Rightarrow> error + string list" where
  "library_contribution l =
     (case skipped_by_rules l of
        Inl e \<Rightarrow> Inl e
      | Inr True \<Rightarrow> Inr []
      | Inr False \<Rightarrow>
          (case downloads l of
             None \<Rightarrow> Inl (KeyError ''downloads'')
           | Some d \<Rightarrow>
               (case append_native [] d of
                  Inl e \<Rightarrow> Inl e
                | Inr result1 \<Rightarrow> append_artifact result1 d)))"

fun collect_urls :: "library list \<Rightarrow> error + string list" where
  "collect_urls [] = Inr []"
| "collect_urls (l # ls) =
     (case library_contribution l of
        Inl e \<Rightarrow> Inl e
      | Inr us \<Rightarrow> (case collect_urls ls of Inl e \<Rightarrow> Inl e | Inr vs \<Rightarrow> Inr (us @ vs)))"

subsection \<open>Paths\<close>

text \<open>
  A path is the list of its components. The first component stands for the value of the
  environment variable the path starts from.
\<close>

type_synonym path = "string list"

text \<open>
  \<^verbatim>\<open>p / n\<close> of \<^verbatim>\<open>pathlib\<close> for a string \<open>n\<close>: the empty string and the string \<open>.\<close> add no
  component, so that the result is \<open>p\<close> itself; any other string without a separator adds
  itself as one component. A string with a slash or a backslash stands for several
  components, and a string whose second character is a colon starts with a drive, where
  the result depends on the drive of \<open>p\<close>; \<open>joinpath\<close> is \<^verbatim>\<open>pathlib\<close> for the strings without
  these, which \<open>plain_segment\<close> describes. A \<open>file_name\<close> is a plain segment that adds a
  component.
\<close>

definition drive_prefixed :: "string \<Rightarrow> bool" where
  "drive_prefixed n \<longleftrightarrow> (case n of c # d # rest \<Rightarrow> d = CHR '':'' | _ \<Rightarrow> False)"

definition plain_segment :: "string \<Rightarrow> bool" where
  "plain_segment n \<longleftrightarrow> CHR ''/'' \<notin> set n \<and> CHR 0x5C \<notin> set n \<and> \<not> drive_prefixed n"

definition file_name :: "string \<Rightarrow> bool" where
  "file_name n \<longleftrightarrow> plain_segment n \<and> n \<noteq> [] \<and> n \<noteq> ''.''"

definition joinpath :: "path \<Rightarrow> string \<Rightarrow> path" where
  "joinpath p n = (if n = [] \<or> n = ''.'' then p else p @ [n])"

definition APPLICATION_NAME :: string where
  "APPLICATION_NAME = ''MyMinecraftLauncher''"

definition TEMP_DIRECTORY :: path where
  "TEMP_DIRECTORY = [''%TEMP%'', APPLICATION_NAME]"

definition APPLICATION_DIRECTORY :: path where
  "APPLICATION_DIRECTORY = [''%LOCALAPPDATA%'', APPLICATION_NAME]"

definition ASSETS_DIRECTORY :: path where
  "ASSETS_DIRECTORY = APPLICATION_DIRECTORY @ [''assets'']"

definition ASSET_OBJECTS_DIRECTORY :: path where
  "ASSET_OBJECTS_DIRECTORY = ASSETS_DIRECTORY @ [''objects'']"

definition PROFILES_DIRECTORY :: path where
  "PROFILES_DIRECTORY = APPLICATION_DIRECTORY @ [''profiles'']"

definition LIBRARIES_DIRECTORY :: path where
  "LIBRARIES_DIRECTORY = APPLICATION_DIRECTORY @ [''libraries'']"

definition JAVA_DIRECTORY :: path where
  "JAVA_DIRECTORY = APPLICATION_DIRECTORY @ [''java'']"

definition VERSIONS_DIRECTORY :: path where
  "VERSIONS_DIRECTORY = APPLICATION_DIRECTORY @ [''versions'']"

text \<open>\<^verbatim>\<open>url.split("/")[-1]\<close>: what follows the last slash, the whole string when it has
  no slash.\<close>

definition last_segment :: "string \<Rightarrow> string" where
  "last_segment u = rev (takeWhile (\<lambda>c. c \<noteq> CHR ''/'') (rev u))"

text \<open>
  The classpath of \<^verbatim>\<open>launch_profile\<close>:
  \<^verbatim>\<open>
      classpath = [
          str(LIBRARIES_DIRECTORY / url.split("/")[-1])
          for url in get_library_urls(*version_json["libraries"])
      ]
      classpath.append(str(VERSIONS_DIRECTORY / f"{version_id}.jar"))
  \<close>
\<close>

definition library_file :: "string \<Rightarrow> path" where
  \<comment> \<open>\<^verbatim>\<open>LIBRARIES_DIRECTORY / url.split("/")[-1]\<close>\<close>
  "library_file u = joinpath LIBRARIES_DIRECTORY (last_segment u)"

definition client_jar :: "string \<Rightarrow> path" where
  \<comment> \<open>\<^verbatim>\<open>VERSIONS_DIRECTORY / f"{version_id}.jar"\<close>\<close>
  "client_jar version_id = joinpath VERSIONS_DIRECTORY (version_id @ ''.jar'')"

definition launch_classpath :: "string \<Rightarrow> library list \<Rightarrow> error + path list" where
  "launch_classpath version_id libraries =
     (case get_library_urls libraries of
        Inl e \<Rightarrow> Inl e
      | Inr urls \<Rightarrow> Inr (map library_file urls @ [client_jar version_id]))"

subsection \<open>The resolution as the specification words it\<close>

definition wf_artifact :: "artifact_obj option \<Rightarrow> bool" where
  "wf_artifact a \<longleftrightarrow> (case a of None \<Rightarrow> True | Some x \<Rightarrow> url x \<noteq> None)"

definition native_artifact :: "library \<Rightarrow> artifact_obj option" where
  "native_artifact l =
     (case downloads l of
        None \<Rightarrow> None
      | Some d \<Rightarrow> (case classifiers d of None \<Rightarrow> None | Some cs \<Rightarrow> cs ''natives-windows''))"

definition main_artifact :: "library \<Rightarrow> artifact_obj option" where
  "main_artifact l = (case downloads l of None \<Rightarrow> None | Some d \<Rightarrow> artifact d)"

definition rejected :: "library \<Rightarrow> bool" where
  \<comment> \<open>the entry carries rules and the rule evaluator rejects it\<close>
  "rejected l \<longleftrightarrow> (case rules l of None \<Rightarrow> False | Some rs \<Rightarrow> \<not> Allowed rs target_platform)"

definition wf_library :: "library \<Rightarrow> bool" where
  "wf_library l \<longleftrightarrow>
     (case rules l of None \<Rightarrow> True | Some rs \<Rightarrow> list_all wf_rule rs) \<and>
     downloads l \<noteq> None \<and> wf_artifact (native_artifact l) \<and> wf_artifact (main_artifact l)"

definition url_list :: "artifact_obj option \<Rightarrow> string list" where
  "url_list a = (case a of None \<Rightarrow> [] | Some x \<Rightarrow> (case url x of None \<Rightarrow> [] | Some u \<Rightarrow> [u]))"

definition entry_urls :: "library \<Rightarrow> string list" where
  "entry_urls l =
     (if rejected l then [] else url_list (native_artifact l) @ url_list (main_artifact l))"

definition ResolveLibraryURLs :: "library list \<Rightarrow> string list" where
  "ResolveLibraryURLs entries = concat (map entry_urls entries)"

section \<open>Template substitution\<close>

text \<open>
  \<^verbatim>\<open>
  def format_template(string: str, **kwargs) -> str:
      result = ""
      iterator = iter(string)
      for char in iterator:
          if char != "$":
              result += char
              continue
          char = next(iterator)
          if char != "{":
              result += "$" + char
              continue
          key = ""
          for char in iterator:
              if char == "}":
                  break
              key += char
          if char != "}":
              raise Exception("Format should be terminated.")
          result += str(kwargs[key])
      return result
  \<close>
  Both loops read from the one iterator, which is the string still to be read. The inner
  loop is \<open>read_key\<close>: it returns the key and what follows the closing brace, or \<open>None\<close> when
  the iterator runs out first; then \<^verbatim>\<open>char\<close> is not a closing brace after the loop, and the
  function raises. \<^verbatim>\<open>next(iterator)\<close> on the exhausted iterator raises \<^verbatim>\<open>StopIteration\<close>.
  The values of the table are of any type, with \<^verbatim>\<open>str\<close> as the parameter \<open>str_of\<close>.
\<close>

fun read_key :: "string \<Rightarrow> string \<Rightarrow> (string \<times> string) option" where
  "read_key key [] = None"
| "read_key key (c # rest) =
     (if c = CHR ''}'' then Some (key, rest) else read_key (key @ [c]) rest)"

lemma read_key_shorter: "read_key key s = Some (k, rest) \<Longrightarrow> length rest < length s"
  by (induction s arbitrary: key) (auto split: if_splits intro: less_SucI)

function format_loop ::
  "('v \<Rightarrow> string) \<Rightarrow> (string \<rightharpoonup> 'v) \<Rightarrow> string \<Rightarrow> string \<Rightarrow> error + string" where
  "format_loop str_of kwargs result [] = Inr result"
| "format_loop str_of kwargs result (c # rest) =
     (if c \<noteq> CHR ''$'' then format_loop str_of kwargs (result @ [c]) rest
      else
        (case rest of
           [] \<Rightarrow> Inl StopIteration
         | c' # rest' \<Rightarrow>
             if c' \<noteq> CHR ''{'' then format_loop str_of kwargs (result @ [CHR ''$'', c']) rest'
             else
               (case read_key [] rest' of
                  None \<Rightarrow> Inl (Exception ''Format should be terminated.'')
                | Some (key, rest'') \<Rightarrow>
                    (case kwargs key of
                       None \<Rightarrow> Inl (KeyError key)
                     | Some v \<Rightarrow> format_loop str_of kwargs (result @ str_of v) rest''))))"
  by pat_completeness auto
termination
  by (relation "measure (\<lambda>(str_of, kwargs, result, s). length s)")
    (auto dest: read_key_shorter)

definition format_template :: "('v \<Rightarrow> string) \<Rightarrow> (string \<rightharpoonup> 'v) \<Rightarrow> string \<Rightarrow> error + string" where
  "format_template str_of kwargs string = format_loop str_of kwargs [] string"

section \<open>Files, the registry and the network\<close>

text \<open>
  The state the modelled functions act on: the directories and the files of the file
  system (a file with its content), the global list \<^verbatim>\<open>profiles\<close>, and the URLs opened with
  \<^verbatim>\<open>urlopen\<close> so far, in order. A function that can raise returns the exception, if any,
  with the state at that point. Two paths that differ name different files: links, and the
  folding of case and of trailing dots and spaces by the file system, are not modelled.
\<close>

record state =
  dirs :: "path set"
  files :: "path \<rightharpoonup> string"
  profiles :: "string list"
  fetched :: "string list"

definition exists_path :: "path \<Rightarrow> state \<Rightarrow> bool" where
  \<comment> \<open>\<^verbatim>\<open>Path.exists()\<close>\<close>
  "exists_path p s \<longleftrightarrow> p \<in> dirs s \<or> files s p \<noteq> None"

definition ancestors :: "path \<Rightarrow> path list" where
  \<comment> \<open>the parent directories of a path, outermost first\<close>
  "ancestors p = map (\<lambda>n. take n p) [1..<length p]"

definition file_above :: "path \<Rightarrow> state \<Rightarrow> bool" where
  "file_above p s \<longleftrightarrow> list_ex (\<lambda>q. files s q \<noteq> None) (ancestors p)"

definition add_dirs :: "path \<Rightarrow> state \<Rightarrow> state" where
  "add_dirs p s = s\<lparr>dirs := dirs s \<union> set (ancestors p) \<union> {p}\<rparr>"

text \<open>
  \<^verbatim>\<open>Path.mkdir(parents=True)\<close>: it fails when the path exists, and creates the missing
  parents otherwise. With a file in the place of a parent, the creation of that parent
  fails on the program's platform with \<^verbatim>\<open>FileExistsError\<close>.
\<close>

definition mkdir_parents :: "path \<Rightarrow> state \<Rightarrow> error + state" where
  "mkdir_parents p s =
     (if exists_path p s then Inl FileExistsError
      else if file_above p s then Inl FileExistsError
      else Inr (add_dirs p s))"

text \<open>\<^verbatim>\<open>os.makedirs(p, exist_ok=True)\<close>: nothing to do for a directory that exists.\<close>

definition makedirs :: "path \<Rightarrow> state \<Rightarrow> error + state" where
  "makedirs p s =
     (if p \<in> dirs s then Inr s
      else if files s p \<noteq> None then Inl FileExistsError
      else if file_above p s then Inl FileNotFoundError
      else Inr (add_dirs p s))"

text \<open>\<^verbatim>\<open>open(p, "w")\<close> or \<^verbatim>\<open>open(p, "wb")\<close>, one \<^verbatim>\<open>write\<close>, and the close.\<close>

definition write_file :: "path \<Rightarrow> string \<Rightarrow> state \<Rightarrow> error + state" where
  "write_file p content s =
     (if p \<in> dirs s then Inl PermissionError
      else if butlast p \<notin> dirs s then Inl FileNotFoundError
      else Inr (s\<lparr>files := (files s)(p \<mapsto> content)\<rparr>))"

text \<open>\<^verbatim>\<open>shutil.rmtree(p)\<close>: the directory and all that is under it.\<close>

definition rmtree :: "path \<Rightarrow> state \<Rightarrow> error + state" where
  "rmtree p s =
     (if p \<in> dirs s then
        Inr (s\<lparr>dirs := {q \<in> dirs s. \<not> prefix p q},
               files := (\<lambda>q. if prefix p q then None else files s q)\<rparr>)
      else if files s p \<noteq> None then Inl NotADirectoryError
      else Inl FileNotFoundError)"

text \<open>\<^verbatim>\<open>Path.unlink()\<close>\<close>

definition unlink :: "path \<Rightarrow> state \<Rightarrow> error + state" where
  "unlink p s =
     (if files s p \<noteq> None then Inr (s\<lparr>files := (files s)(p := None)\<rparr>)
      else if p \<in> dirs s then Inl PermissionError
      else Inl FileNotFoundError)"

text \<open>
  What the network answers to a URL: \<^verbatim>\<open>urlopen\<close> raises, or it returns a response whose
  \<^verbatim>\<open>read\<close> raises or returns the body.
\<close>

datatype response = ConnectFail | ReadFail | Body string

text \<open>
  The download idiom of the program:
  \<^verbatim>\<open>
      with urlopen(url) as res:
          with path.open("wb") as file:
              file.write(res.read())
  \<close>
  The file is opened, and so created empty, before the body is read.
\<close>

definition fetch_to :: "(string \<Rightarrow> response) \<Rightarrow> string \<Rightarrow> path \<Rightarrow> state \<Rightarrow> error option \<times> state" where
  "fetch_to net u p s =
     (let s1 = s\<lparr>fetched := fetched s @ [u]\<rparr> in
      case net u of
        ConnectFail \<Rightarrow> (Some URLError, s1)
      | ReadFail \<Rightarrow>
          (case write_file p [] s1 of
             Inl e \<Rightarrow> (Some e, s1)
           | Inr s2 \<Rightarrow> (Some URLError, s2))
      | Body b \<Rightarrow>
          (case write_file p [] s1 of
             Inl e \<Rightarrow> (Some e, s1)
           | Inr s2 \<Rightarrow> (None, s2\<lparr>files := (files s2)(p \<mapsto> b)\<rparr>)))"

section \<open>Profiles\<close>

text \<open>
  \<^verbatim>\<open>
  def create_profile(name: str, version_id: str):
      name = format_name(name)
      (PROFILES_DIRECTORY / name / ".minecraft").mkdir(parents=True)
      with (PROFILES_DIRECTORY / name / ".VERSION").open("w") as file:
          file.write(version_id)
      version_json = get_version_json(version_id)
      download_version(version_json)
      link_legacy_assets(name, version_json)
      profiles.append(name)
      application_window.reload()
  \<close>
  The three calls that resolve and acquire the version and link the legacy assets are the
  parameter \<open>acquire\<close>: any function of the profile name, the version id and the state. The
  redrawing of the window is not modelled.
\<close>

definition profile_dir :: "string \<Rightarrow> path" where
  \<comment> \<open>\<^verbatim>\<open>PROFILES_DIRECTORY / name\<close>: the profiles directory itself for the names \<open>""\<close> and \<open>.\<close>\<close>
  "profile_dir name = joinpath PROFILES_DIRECTORY name"

definition create_profile ::
  "(string \<Rightarrow> string \<Rightarrow> state \<Rightarrow> error option \<times> state) \<Rightarrow> string \<Rightarrow> string \<Rightarrow> state
     \<Rightarrow> error option \<times> state" where
  "create_profile acquire name version_id s =
     (let name = format_name name in
      case mkdir_parents (profile_dir name @ [''.minecraft'']) s of
        Inl e \<Rightarrow> (Some e, s)
      | Inr s1 \<Rightarrow>
          (case write_file (profile_dir name @ [''.VERSION'']) version_id s1 of
             Inl e \<Rightarrow> (Some e, s1)
           | Inr s2 \<Rightarrow>
               (case acquire name version_id s2 of
                  (Some e, s3) \<Rightarrow> (Some e, s3)
                | (None, s3) \<Rightarrow> (None, s3\<lparr>profiles := profiles s3 @ [name]\<rparr>))))"

text \<open>
  \<^verbatim>\<open>
  def profile_exists(name: str) -> bool:
      return format_name(name) in profiles
  \<close>
\<close>

definition profile_exists :: "string \<Rightarrow> state \<Rightarrow> bool" where
  "profile_exists name s \<longleftrightarrow> format_name name \<in> set (profiles s)"

text \<open>
  \<^verbatim>\<open>
  def delete_profile(name: str):
      name = format_name(name)
      shutil.rmtree(PROFILES_DIRECTORY / name)
      if name in profiles:
          profiles.remove(name)
          application_window.reload()
  \<close>
  \<^verbatim>\<open>list.remove\<close> removes the first occurrence.
\<close>

definition delete_profile :: "string \<Rightarrow> state \<Rightarrow> error option \<times> state" where
  "delete_profile name s =
     (let name = format_name name in
      case rmtree (profile_dir name) s of
        Inl e \<Rightarrow> (Some e, s)
      | Inr s1 \<Rightarrow>
          (None, if name \<in> set (profiles s1)
                 then s1\<lparr>profiles := remove1 name (profiles s1)\<rparr> else s1))"

text \<open>
  \<^verbatim>\<open>
      def _on_create(self):
          selection = get_selection(self.versions)
          name = self.name.get()
          if selection and not profile_exists(name):
              try:
                  create_profile(name, selection)
                  self.destroy()
              except Exception as ex:
                  delete_profile(name)
                  messagebox.showerror(
                      title="An exception occurred", message=str(ex))
                  logger.exception(ex)
          else:
              self.create.bell()
  \<close>
  What the handler ends with: the profile is created and the window closed, the bell is
  rung, the exception of \<^verbatim>\<open>create_profile\<close> is shown, or \<^verbatim>\<open>delete_profile\<close> raises in the
  handler and that exception leaves it.
\<close>

datatype outcome = Created | Bell | ErrorShown error | Raised error

definition on_create ::
  "(string \<Rightarrow> string \<Rightarrow> state \<Rightarrow> error option \<times> state) \<Rightarrow> string option \<Rightarrow> string \<Rightarrow> state
     \<Rightarrow> outcome \<times> state" where
  "on_create acquire selection name s =
     (case selection of
        None \<Rightarrow> (Bell, s)
      | Some version_id \<Rightarrow>
          if version_id \<noteq> [] \<and> \<not> profile_exists name s then
            (case create_profile acquire name version_id s of
               (None, s1) \<Rightarrow> (Created, s1)
             | (Some ex, s1) \<Rightarrow>
                 (case delete_profile name s1 of
                    (None, s2) \<Rightarrow> (ErrorShown ex, s2)
                  | (Some ex', s2) \<Rightarrow> (Raised ex', s2)))
          else (Bell, s))"

section \<open>The asset store\<close>







section \<open>The Java runtime\<close>

text \<open>
  \<^verbatim>\<open>
  JRE_DOWNLOAD_URLS = {
      8: "https://github.com/adoptium/temurin8-binaries/releases/download/jdk8u392-b08/OpenJDK8U-jre_x64_windows_hotspot_8u392b08.zip",
      17: "https://github.com/adoptium/temurin17-binaries/releases/download/jdk-17.0.9%2B9.1/OpenJDK17U-jre_x64_windows_hotspot_17.0.9_9.zip",
  }
  JRE_DIRECTORIES = {
      8: JAVA_DIRECTORY / "jdk8u392-b08-jre" / "bin",
      17: JAVA_DIRECTORY / "jdk-17.0.9+9-jre" / "bin",
  }
  \<close>
\<close>

definition JRE_DOWNLOAD_URLS :: "int \<rightharpoonup> string" where
  "JRE_DOWNLOAD_URLS =
     [8 \<mapsto> ''https://github.com/adoptium/temurin8-binaries/releases/download/jdk8u392-b08/OpenJDK8U-jre_x64_windows_hotspot_8u392b08.zip'',
      17 \<mapsto> ''https://github.com/adoptium/temurin17-binaries/releases/download/jdk-17.0.9%2B9.1/OpenJDK17U-jre_x64_windows_hotspot_17.0.9_9.zip'']"

definition JRE_DIRECTORIES :: "int \<rightharpoonup> path" where
  "JRE_DIRECTORIES =
     [8 \<mapsto> JAVA_DIRECTORY @ [''jdk8u392-b08-jre''] @ [''bin''],
      17 \<mapsto> JAVA_DIRECTORY @ [''jdk-17.0.9+9-jre''] @ [''bin'']]"

text \<open>
  \<^verbatim>\<open>ZipFile.extractall(d)\<close> for an archive whose members are files, each with its path
  below \<open>d\<close> and its content: the parent directories of a member are created as needed and
  the member is written.
\<close>

definition extract_member :: "path \<Rightarrow> path \<times> string \<Rightarrow> state \<Rightarrow> error option \<times> state" where
  "extract_member d m s =
     (case makedirs (butlast (d @ fst m)) s of
        Inl e \<Rightarrow> (Some e, s)
      | Inr s1 \<Rightarrow>
          (case write_file (d @ fst m) (snd m) s1 of
             Inl e \<Rightarrow> (Some e, s1)
           | Inr s2 \<Rightarrow> (None, s2)))"

fun extractall :: "(path \<times> string) list \<Rightarrow> path \<Rightarrow> state \<Rightarrow> error option \<times> state" where
  "extractall [] d s = (None, s)"
| "extractall (m # ms) d s =
     (case extract_member d m s of
        (Some e, s1) \<Rightarrow> (Some e, s1)
      | (None, s1) \<Rightarrow> extractall ms d s1)"

text \<open>
  \<^verbatim>\<open>
  def download_java(version: int):
      if JRE_DIRECTORIES[version].exists():
          return
      logger.info(f"Downloading Java from {JRE_DOWNLOAD_URLS[version]}")
      zip_path = TEMP_DIRECTORY / \
          f'{JRE_DOWNLOAD_URLS[version].split("/")[-1]}.zip'
      with urlopen(JRE_DOWNLOAD_URLS[version]) as res:
          with zip_path.open("wb") as file:
              file.write(res.read())
      with ZipFile(zip_path, "r") as zipfile:
          zipfile.extractall(JAVA_DIRECTORY)
      zip_path.unlink()
  \<close>
  The parameter \<open>unzip\<close> reads the members of an archive from its bytes, \<open>None\<close> when the
  bytes are no archive.
\<close>

definition zip_path :: "string \<Rightarrow> path" where
  "zip_path u = TEMP_DIRECTORY @ [last_segment u @ ''.zip'']"

definition download_java ::
  "(string \<Rightarrow> response) \<Rightarrow> (string \<Rightarrow> (path \<times> string) list option) \<Rightarrow> int \<Rightarrow> state
     \<Rightarrow> error option \<times> state" where
  "download_java net unzip version s =
     (case JRE_DIRECTORIES version of
        None \<Rightarrow> (Some (KeyErrorInt version), s)
      | Some d \<Rightarrow>
          if exists_path d s then (None, s)
          else
            (case JRE_DOWNLOAD_URLS version of
               None \<Rightarrow> (Some (KeyErrorInt version), s)
             | Some u \<Rightarrow>
                 (case fetch_to net u (zip_path u) s of
                    (Some e, s1) \<Rightarrow> (Some e, s1)
                  | (None, s1) \<Rightarrow>
                      (case files s1 (zip_path u) of
                         None \<Rightarrow> (Some FileNotFoundError, s1)
                       | Some bytes \<Rightarrow>
                           (case unzip bytes of
                              None \<Rightarrow> (Some BadZipFile, s1)
                            | Some members \<Rightarrow>
                                (case extractall members JAVA_DIRECTORY s1 of
                                   (Some e, s2) \<Rightarrow> (Some e, s2)
                                 | (None, s2) \<Rightarrow>
                                     (case unlink (zip_path u) s2 of
                                        Inl e \<Rightarrow> (Some e, s2)
                                      | Inr s3 \<Rightarrow> (None, s3))))))))"

text \<open>
  When an archive extracts without an error: the member paths are not empty, no member path
  is a prefix of another (a member is not both a file and a directory of another, and no
  path occurs twice), no directory stands where a member is to be written, and no file
  stands where a directory of a member is needed.
\<close>

fun incomparable :: "path list \<Rightarrow> bool" where
  "incomparable [] \<longleftrightarrow> True"
| "incomparable (p # ps) \<longleftrightarrow> list_all (\<lambda>q. \<not> prefix p q \<and> \<not> prefix q p) ps \<and> incomparable ps"

definition extractable :: "path \<Rightarrow> (path \<times> string) list \<Rightarrow> state \<Rightarrow> bool" where
  "extractable d ms s \<longleftrightarrow>
     incomparable (map fst ms) \<and>
     list_all (\<lambda>m. fst m \<noteq> [] \<and> d @ fst m \<notin> dirs s \<and> \<not> file_above (d @ fst m) s) ms"

section \<open>Example states\<close>

text \<open>
  A fresh installation after the start-up code has made its directories: no file, no
  profile, and the URLs counted from there.
\<close>

definition fresh_state :: state where
  "fresh_state =
     \<lparr>dirs = {[''%TEMP%''], TEMP_DIRECTORY, [''%LOCALAPPDATA%''], APPLICATION_DIRECTORY,
              ASSETS_DIRECTORY, ASSET_OBJECTS_DIRECTORY, PROFILES_DIRECTORY,
              LIBRARIES_DIRECTORY, JAVA_DIRECTORY, VERSIONS_DIRECTORY},
      files = Map.empty, profiles = [], fetched = []\<rparr>"

text \<open>An acquisition that succeeds and changes nothing, as when all is cached.\<close>

definition acquire_cached :: "string \<Rightarrow> string \<Rightarrow> state \<Rightarrow> error option \<times> state" where
  "acquire_cached name version_id s = (None, s)"

section \<open>Facts about strings\<close>

lemma unsafe_char_not_space: "unsafe_char c \<Longrightarrow> \<not> isspace c"
  by (auto simp: unsafe_char_def isspace_def)

lemma underscore_not_space: "\<not> isspace (CHR ''_'')"
  by (simp add: isspace_def)

lemma underscore_not_unsafe: "\<not> unsafe_char (CHR ''_'')"
  by (simp add: unsafe_char_def)

lemma replaces_as_map:
  "str_replace (CHR 0x27) (CHR ''_'')
     (str_replace (CHR 0x22) (CHR ''_'')
       (str_replace (CHR 0x5C) (CHR ''_'')
         (str_replace (CHR ''/'') (CHR ''_'') s)))
   = map (\<lambda>c. if unsafe_char c then CHR ''_'' else c) s"
  by (induction s) (auto simp: str_replace_def unsafe_char_def)

lemma str_strip_no_space_ends:
  "str_strip s \<noteq> [] \<Longrightarrow> \<not> isspace (hd (str_strip s)) \<and> \<not> isspace (last (str_strip s))"
proof -
  assume ne: "str_strip s \<noteq> []"
  let ?t = "dropWhile isspace s"
  let ?u = "dropWhile isspace (rev ?t)"
  have u_ne: "?u \<noteq> []" using ne by (simp add: str_strip_def)
  then have hd_u: "\<not> isspace (hd ?u)" by (rule hd_dropWhile)
  have t_ne: "?t \<noteq> []"
  proof
    assume "?t = []"
    then have "?u = []" by (simp only: rev.simps dropWhile.simps)
    with u_ne show False by simp
  qed
  then have hd_t: "\<not> isspace (hd ?t)" by (rule hd_dropWhile)
  have last_strip: "last (str_strip s) = hd ?u"
    using u_ne by (simp add: str_strip_def last_rev)
  obtain ys where ys: "rev ?t = ys @ ?u"
    by (metis takeWhile_dropWhile_id)
  then have "?t = rev ?u @ rev ys"
    by (metis rev_append rev_rev_ident)
  then have "hd ?t = hd (rev ?u)"
    using u_ne by (metis hd_append2 rev_is_Nil_conv)
  then have "\<not> isspace (hd (str_strip s))"
    using hd_t by (simp add: str_strip_def)
  with hd_u last_strip show ?thesis by simp
qed

lemma dropWhile_hd_id: "xs = [] \<or> \<not> P (hd xs) \<Longrightarrow> dropWhile P xs = xs"
  by (cases xs) auto

lemma str_strip_fixed:
  assumes "s \<noteq> [] \<Longrightarrow> \<not> isspace (hd s) \<and> \<not> isspace (last s)"
  shows "str_strip s = s"
proof (cases "s = []")
  case True
  then show ?thesis by (simp add: str_strip_def)
next
  case False
  with assms have h: "\<not> isspace (hd s)" and l: "\<not> isspace (last s)" by auto
  have d1: "dropWhile isspace s = s"
    using h by (simp add: dropWhile_hd_id)
  have "hd (rev s) = last s" using False by (simp add: hd_rev)
  then have d2: "dropWhile isspace (rev s) = rev s"
    using l by (simp add: dropWhile_hd_id)
  show ?thesis by (simp add: str_strip_def d1 d2)
qed

lemma sanitized_eq_dotdot:
  "map (\<lambda>c. if unsafe_char c then CHR ''_'' else c) t = ''..'' \<longleftrightarrow> t = ''..''"
proof
  assume h: "map (\<lambda>c. if unsafe_char c then CHR ''_'' else c) t = ''..''"
  then obtain a b where t: "t = [a, b]"
    by (cases t; cases "tl t") auto
  with h have "\<not> unsafe_char a" "\<not> unsafe_char b"
    by (auto split: if_splits)
  with h t show "t = ''..''" by simp
next
  assume "t = ''..''"
  then show "map (\<lambda>c. if unsafe_char c then CHR ''_'' else c) t = ''..''"
    by (simp add: unsafe_char_def)
qed

lemma format_name_unfold:
  "format_name s =
     (if str_strip s = ''..'' then ''__''
      else map (\<lambda>c. if unsafe_char c then CHR ''_'' else c) (str_strip s))"
  unfolding format_name_def Let_def replaces_as_map sanitized_eq_dotdot ..

lemma format_name_no_unsafe: "c \<in> set (format_name s) \<Longrightarrow> \<not> unsafe_char c"
  by (auto simp: format_name_unfold underscore_not_unsafe split: if_splits)

lemma format_name_no_space_ends:
  assumes "format_name s \<noteq> []"
  shows "\<not> isspace (hd (format_name s)) \<and> \<not> isspace (last (format_name s))"
proof (cases "str_strip s = ''..''")
  case True
  then show ?thesis by (simp add: format_name_unfold isspace_def)
next
  case False
  let ?f = "\<lambda>c. if unsafe_char c then CHR ''_'' else c"
  have keep: "\<not> isspace (?f c)" if "\<not> isspace c" for c
    using that by (simp add: underscore_not_space)
  from False assms have ne: "str_strip s \<noteq> []"
    by (auto simp: format_name_unfold)
  then have ends: "\<not> isspace (hd (str_strip s))" "\<not> isspace (last (str_strip s))"
    using str_strip_no_space_ends by blast+
  have "hd (format_name s) = ?f (hd (str_strip s))"
    using False ne by (simp add: format_name_unfold hd_map)
  moreover have "last (format_name s) = ?f (last (str_strip s))"
    using False ne by (simp add: format_name_unfold last_map)
  ultimately show ?thesis using ends keep by presburger
qed

section \<open>Facts about the rule evaluator\<close>

lemma allowed_loop_spec:
  "list_all wf_rule rs0 \<Longrightarrow>
     allowed_loop allowed rs0 = Inr (Allowed_from allowed rs0 target_platform)"
proof (induction rs0 arbitrary: allowed)
  case Nil
  then show ?case by simp
next
  case (Cons r rs)
  then have wf: "wf_rule r" and rest: "list_all wf_rule rs" by simp_all
  note IH = Cons.IH [OF rest]
  from wf show ?case
    by (auto simp: IH wf_rule_def allows_def disallows_def constrained_def matches_def
        rule_step_def target_platform_def split: option.splits)
qed

lemma Allowed_from_match:
  "List.find (matches target) rs0 = Some r \<Longrightarrow> list_all wf_rule rs0 \<Longrightarrow>
     Allowed_from allowed rs0 target = allows r"
proof (induction rs0 arbitrary: allowed)
  case Nil
  then show ?case by simp
next
  case (Cons x xs)
  show ?case
  proof (cases "matches target x")
    case True
    with Cons.prems have "x = r" by simp
    with True Cons.prems show ?thesis
      by (auto simp: rule_step_def wf_rule_def allows_def disallows_def constrained_def matches_def
          split: option.splits)
  next
    case False
    with Cons.prems have f: "List.find (matches target) xs = Some r" and w: "list_all wf_rule xs"
      by simp_all
    from False show ?thesis
      by (simp add: rule_step_def Cons.IH [OF f w])
  qed
qed

lemma find_append:
  "List.find P (xs @ ys) = (case List.find P xs of None \<Rightarrow> List.find P ys | Some x \<Rightarrow> Some x)"
  by (induction xs) auto

lemma Allowed_from_no_match:
  "List.find (matches target) rs0 = None \<Longrightarrow> list_all wf_rule rs0 \<Longrightarrow>
     Allowed_from allowed rs0 target =
       (case List.find (\<lambda>r. \<not> constrained r) (rev rs0) of
          Some r \<Rightarrow> allows r | None \<Rightarrow> allowed)"
proof (induction rs0 arbitrary: allowed)
  case Nil
  then show ?case by simp
next
  case (Cons x xs)
  then have nm: "\<not> matches target x" and f: "List.find (matches target) xs = None"
    and wx: "wf_rule x" and w: "list_all wf_rule xs"
    by (simp_all split: if_splits)
  note IH = Cons.IH [OF f w]
  show ?case
  proof (cases "constrained x")
    case True
    with nm show ?thesis
      by (simp add: rule_step_def IH find_append split: option.splits)
  next
    case False
    with nm wx show ?thesis
      by (auto simp: rule_step_def IH find_append wf_rule_def allows_def disallows_def
          split: option.splits)
  qed
qed


lemma allowed_loop_short_circuit:
  "list_all wf_rule pre \<Longrightarrow> \<not> list_ex (matches target_platform) pre \<Longrightarrow>
   wf_rule r \<Longrightarrow> matches target_platform r \<Longrightarrow>
     allowed_loop allowed (pre @ r # post) = Inr (allows r)"
proof (induction pre arbitrary: allowed)
  case Nil
  then show ?case
    by (auto simp: wf_rule_def allows_def disallows_def matches_def target_platform_def
        split: option.splits)
next
  case (Cons x xs)
  then have wx: "wf_rule x" and nm: "\<not> matches target_platform x"
    and w: "list_all wf_rule xs" and n: "\<not> list_ex (matches target_platform) xs"
    by simp_all
  note IH = Cons.IH [OF w n Cons.prems(3) Cons.prems(4)]
  from wx nm show ?case
    by (auto simp: IH wf_rule_def allows_def disallows_def matches_def target_platform_def
        split: option.splits)
qed

section \<open>Facts about the library loop\<close>

lemma append_native_acc:
  "append_native acc d =
     (case append_native [] d of Inl e \<Rightarrow> Inl e | Inr us \<Rightarrow> Inr (acc @ us))"
  by (simp add: append_native_def split: option.splits sum.splits)

lemma append_artifact_acc:
  "append_artifact acc d =
     (case append_artifact [] d of Inl e \<Rightarrow> Inl e | Inr us \<Rightarrow> Inr (acc @ us))"
  by (simp add: append_artifact_def split: option.splits sum.splits)

lemma get_library_urls_loop_collect:
  "get_library_urls_loop acc ls =
     (case collect_urls ls of Inl e \<Rightarrow> Inl e | Inr us \<Rightarrow> Inr (acc @ us))"
proof (induction ls arbitrary: acc)
  case Nil
  then show ?case by simp
next
  case (Cons l ls)
  show ?case
  proof (cases "skipped_by_rules l")
    case (Inl e)
    then show ?thesis by (simp add: library_contribution_def)
  next
    case (Inr b)
    show ?thesis
    proof (cases b)
      case True
      with Inr show ?thesis
        by (simp add: library_contribution_def Cons.IH split: sum.splits)
    next
      case False
      with Inr have skip: "skipped_by_rules l = Inr False" by simp
      show ?thesis
      proof (cases "downloads l")
        case None
        with skip show ?thesis by (simp add: library_contribution_def)
      next
        case (Some d)
        show ?thesis
        proof (cases "append_native [] d")
          case (Inl e)
          then have "append_native acc d = Inl e"
            by (simp add: append_native_acc [of acc])
          with Inl skip Some show ?thesis by (simp add: library_contribution_def)
        next
          case n: (Inr r1)
          then have n': "append_native acc d = Inr (acc @ r1)"
            by (simp add: append_native_acc [of acc])
          show ?thesis
          proof (cases "append_artifact [] d")
            case (Inl e)
            then have "append_artifact (acc @ r1) d = Inl e" "append_artifact r1 d = Inl e"
              by (simp_all add: append_artifact_acc [of "acc @ r1"] append_artifact_acc [of r1])
            with n n' skip Some show ?thesis by (simp add: library_contribution_def)
          next
            case (Inr r2)
            then have "append_artifact (acc @ r1) d = Inr (acc @ r1 @ r2)"
              "append_artifact r1 d = Inr (r1 @ r2)"
              by (simp_all add: append_artifact_acc [of "acc @ r1"] append_artifact_acc [of r1])
            with n n' skip Some show ?thesis
              by (simp add: library_contribution_def Cons.IH split: sum.splits)
          qed
        qed
      qed
    qed
  qed
qed

lemma skipped_by_rules_wf:
  "wf_library l \<Longrightarrow> skipped_by_rules l = Inr (rejected l)"
  by (auto simp: wf_library_def skipped_by_rules_def rejected_def allowed_by_rules_def
      Allowed_def allowed_loop_spec split: option.splits)

lemma append_native_wf:
  "downloads l = Some d \<Longrightarrow> wf_artifact (native_artifact l) \<Longrightarrow>
     append_native acc d = Inr (acc @ url_list (native_artifact l))"
  by (auto simp: append_native_def native_artifact_def wf_artifact_def url_list_def get_url_def
      split: option.splits)

lemma append_artifact_wf:
  "downloads l = Some d \<Longrightarrow> wf_artifact (main_artifact l) \<Longrightarrow>
     append_artifact acc d = Inr (acc @ url_list (main_artifact l))"
  by (auto simp: append_artifact_def main_artifact_def wf_artifact_def url_list_def get_url_def
      split: option.splits)

lemma library_contribution_wf:
  assumes "wf_library l"
  shows "library_contribution l = Inr (entry_urls l)"
proof -
  from assms obtain d where d: "downloads l = Some d"
    and n: "wf_artifact (native_artifact l)" and m: "wf_artifact (main_artifact l)"
    by (auto simp: wf_library_def)
  show ?thesis
    by (simp add: library_contribution_def skipped_by_rules_wf [OF assms] d entry_urls_def
        append_native_wf [OF d n] append_artifact_wf [OF d m])
qed

lemma collect_urls_wf:
  "list_all wf_library ls \<Longrightarrow> collect_urls ls = Inr (ResolveLibraryURLs ls)"
  by (induction ls) (simp_all add: ResolveLibraryURLs_def library_contribution_wf)

lemma get_library_urls_wf:
  "list_all wf_library ls \<Longrightarrow> get_library_urls ls = Inr (ResolveLibraryURLs ls)"
  by (simp add: get_library_urls_def get_library_urls_loop_collect collect_urls_wf)


section \<open>Facts about paths\<close>

lemma last_segment_file:
  "CHR ''/'' \<notin> set n \<Longrightarrow> last_segment (base @ CHR ''/'' # n) = n"
proof -
  assume n: "CHR ''/'' \<notin> set n"
  have "takeWhile (\<lambda>c. c \<noteq> CHR ''/'') (rev n @ CHR ''/'' # rev base) = rev n"
    using n by (auto simp: takeWhile_tail)
  then show ?thesis by (simp add: last_segment_def)
qed

lemma last_segment_slash: "last_segment (base @ [CHR ''/'']) = []"
  by (simp add: last_segment_def)

lemma library_file_of_name:
  "file_name n \<Longrightarrow>
     library_file (base @ CHR ''/'' # n) = [''%LOCALAPPDATA%'', ''MyMinecraftLauncher'', ''libraries'', n]"
  by (simp add: library_file_def joinpath_def file_name_def plain_segment_def last_segment_file
      LIBRARIES_DIRECTORY_def APPLICATION_DIRECTORY_def APPLICATION_NAME_def)

lemma library_file_of_slash:
  "library_file (base @ [CHR ''/'']) = [''%LOCALAPPDATA%'', ''MyMinecraftLauncher'', ''libraries'']"
  by (simp add: library_file_def joinpath_def last_segment_slash
      LIBRARIES_DIRECTORY_def APPLICATION_DIRECTORY_def APPLICATION_NAME_def)

lemma client_jar_path:
  "client_jar version_id =
     [''%LOCALAPPDATA%'', ''MyMinecraftLauncher'', ''versions'', version_id @ ''.jar'']"
  by (simp add: client_jar_def joinpath_def
      VERSIONS_DIRECTORY_def APPLICATION_DIRECTORY_def APPLICATION_NAME_def)


lemma profile_dir_path:
  "profile_dir n =
     (if n = [] \<or> n = ''.'' then [''%LOCALAPPDATA%'', ''MyMinecraftLauncher'', ''profiles'']
      else [''%LOCALAPPDATA%'', ''MyMinecraftLauncher'', ''profiles'', n])"
  by (simp add: profile_dir_def joinpath_def PROFILES_DIRECTORY_def APPLICATION_DIRECTORY_def
      APPLICATION_NAME_def)


section \<open>Facts about template substitution\<close>

lemma format_loop_plain:
  "CHR ''$'' \<notin> set s \<Longrightarrow>
     format_loop str_of kwargs acc (s @ rest) = format_loop str_of kwargs (acc @ s) rest"
  by (induction s arbitrary: acc) auto

lemma format_template_no_dollar:
  "CHR ''$'' \<notin> set s \<Longrightarrow> format_template str_of kwargs s = Inr s"
  using format_loop_plain [of s str_of kwargs "[]" "[]"] by (simp add: format_template_def)

lemma read_key_closed:
  "CHR ''}'' \<notin> set k \<Longrightarrow> read_key acc (k @ CHR ''}'' # rest) = Some (acc @ k, rest)"
  by (induction k arbitrary: acc) auto

lemma read_key_open: "CHR ''}'' \<notin> set s \<Longrightarrow> read_key acc s = None"
  by (induction s arbitrary: acc) auto

text \<open>
  The parts of the grammar that hold, for a prefix without a dollar sign: a placeholder is
  replaced by the string form of the key's value and the scan goes on behind the closing
  brace; a key that is not in the table raises \<open>KeyError\<close>; a placeholder that is not closed
  raises the exception of the function; a dollar sign followed by another character than an
  opening brace is copied together with that character.
\<close>

lemma format_template_substitutes:
  assumes "CHR ''$'' \<notin> set pre" and "CHR ''}'' \<notin> set key"
  shows "format_template str_of kwargs (pre @ ''${'' @ key @ ''}'' @ post) =
     (case kwargs key of
        None \<Rightarrow> Inl (KeyError key)
      | Some v \<Rightarrow> format_loop str_of kwargs (pre @ str_of v) post)"
  using assms
  by (simp add: format_template_def format_loop_plain read_key_closed split: option.splits)

lemma format_template_unterminated:
  assumes "CHR ''$'' \<notin> set pre" and "CHR ''}'' \<notin> set rest"
  shows "format_template str_of kwargs (pre @ ''${'' @ rest) =
     Inl (Exception ''Format should be terminated.'')"
  using assms by (simp add: format_template_def format_loop_plain read_key_open)

lemma format_template_dollar_other:
  assumes "CHR ''$'' \<notin> set pre" and "c \<noteq> CHR ''{''"
  shows "format_template str_of kwargs (pre @ CHR ''$'' # c # post) =
     format_loop str_of kwargs (pre @ [CHR ''$'', c]) post"
  using assms by (simp add: format_template_def format_loop_plain)

lemma format_template_trailing_dollar:
  assumes "CHR ''$'' \<notin> set pre"
  shows "format_template str_of kwargs (pre @ ''$'') = Inl StopIteration"
  using assms by (simp add: format_template_def format_loop_plain)

lemma format_template_examples:
  "format_template (\<lambda>v. v) [''name'' \<mapsto> ''Steve''] ''Hello ${name}!'' = Inr ''Hello Steve!''"
  "format_template (\<lambda>v. v) [''name'' \<mapsto> ''Steve''] ''$100'' = Inr ''$100''"
  "format_template (\<lambda>v. v) [''name'' \<mapsto> ''Steve''] ''${unterminated''
     = Inl (Exception ''Format should be terminated.'')"
  "format_template (\<lambda>v. v) [''name'' \<mapsto> ''Steve''] ''${user}'' = Inl (KeyError ''user'')"
  by (simp_all add: format_template_def)

section \<open>Facts about the file system and the profiles\<close>

lemmas path_defs = TEMP_DIRECTORY_def APPLICATION_DIRECTORY_def ASSETS_DIRECTORY_def
  ASSET_OBJECTS_DIRECTORY_def PROFILES_DIRECTORY_def LIBRARIES_DIRECTORY_def JAVA_DIRECTORY_def
  VERSIONS_DIRECTORY_def APPLICATION_NAME_def

lemmas fs_defs = exists_path_def file_above_def ancestors_def add_dirs_def mkdir_parents_def
  makedirs_def write_file_def rmtree_def unlink_def

lemma format_name_My_Profile:
  "format_name ''My Profile'' = ''My Profile''"
  "format_name (CHR 0x20 # ''My Profile'') = ''My Profile''"
  by (simp_all add: format_name_def str_strip_def str_replace_def isspace_def)

lemma first_creation:
  "fst (create_profile acquire_cached ''My Profile'' ''1.8.9'' fresh_state) = None"
  "profile_dir ''My Profile'' @ [''.minecraft'']
     \<in> dirs (snd (create_profile acquire_cached ''My Profile'' ''1.8.9'' fresh_state))"
  "profiles (snd (create_profile acquire_cached ''My Profile'' ''1.8.9'' fresh_state)) = [''My Profile'']"
  by (simp_all add: create_profile_def Let_def format_name_My_Profile fresh_state_def
      acquire_cached_def fs_defs profile_dir_def joinpath_def path_defs upt_rec)

lemma create_profile_registers:
  "create_profile acquire name version_id s = (None, s1) \<Longrightarrow> format_name name \<in> set (profiles s1)"
  by (auto simp: create_profile_def Let_def split: sum.splits prod.splits option.splits)


lemma remove1_absent: "x \<notin> set xs \<Longrightarrow> remove1 x xs = xs"
  by (induction xs) auto















section \<open>Facts about the extraction and the runtime\<close>

lemma ancestors_iff:
  "q \<in> set (ancestors p) \<longleftrightarrow> q \<noteq> [] \<and> strict_prefix q p"
proof
  assume "q \<in> set (ancestors p)"
  then obtain n where n: "1 \<le> n" "n < length p" "q = take n p"
    by (auto simp: ancestors_def)
  then have "prefix q p" by (simp add: take_is_prefix)
  moreover from n have "length q < length p" by simp
  ultimately have "strict_prefix q p" by (auto simp: strict_prefix_def)
  moreover from n have "q \<noteq> []" by auto
  ultimately show "q \<noteq> [] \<and> strict_prefix q p" by simp
next
  assume h: "q \<noteq> [] \<and> strict_prefix q p"
  then obtain zs where zs: "p = q @ zs" "zs \<noteq> []"
    by (auto simp: strict_prefix_def prefix_def)
  then have "q = take (length q) p" "1 \<le> length q" "length q < length p"
    using h by (auto simp: Suc_le_eq)
  then show "q \<in> set (ancestors p)"
    unfolding ancestors_def by (metis (no_types, lifting) atLeastLessThan_iff image_eqI set_map set_upt)
qed

lemma file_above_iff:
  "file_above p s \<longleftrightarrow> (\<exists>q. q \<noteq> [] \<and> strict_prefix q p \<and> files s q \<noteq> None)"
  by (auto simp: file_above_def list_ex_iff ancestors_iff)

lemma butlast_ancestor:
  assumes "2 \<le> length p"
  shows "butlast p \<noteq> [] \<and> strict_prefix (butlast p) p"
proof -
  from assms obtain x y zs where xyz: "p = x # y # zs"
    by (cases p; cases "tl p") auto
  then have p: "p = butlast p @ [last p]" by simp
  from xyz have "butlast p \<noteq> []" by simp
  moreover have "strict_prefix (butlast p) p"
    using p by (metis append_Nil2 list.distinct(1) prefixI same_append_eq strict_prefix_def)
  ultimately show ?thesis by simp
qed

lemma strict_prefix_butlast:
  "strict_prefix q p \<Longrightarrow> prefix q (butlast p)"
  by (metis append_butlast_last_id prefix_snoc strict_prefix_def prefix_bot.extremum_uniqueI)

lemma makedirs_for_member:
  assumes len: "2 \<le> length p" and nf: "\<not> file_above p s"
  shows "\<exists>s1. makedirs (butlast p) s = Inr s1 \<and> files s1 = files s \<and> fetched s1 = fetched s
     \<and> profiles s1 = profiles s \<and> butlast p \<in> dirs s1 \<and> dirs s \<subseteq> dirs s1
     \<and> (\<forall>q \<in> dirs s1. q \<in> dirs s \<or> (q \<noteq> [] \<and> strict_prefix q p))"
proof (cases "butlast p \<in> dirs s")
  case True
  then show ?thesis by (simp add: makedirs_def)
next
  case False
  from butlast_ancestor [OF len] have b: "butlast p \<noteq> []" "strict_prefix (butlast p) p" by simp_all
  with nf have f: "files s (butlast p) = None" by (auto simp: file_above_iff)
  have na: "\<not> file_above (butlast p) s"
    using nf b by (auto simp: file_above_iff dest: prefix_order.less_trans)
  have new: "q \<noteq> [] \<and> strict_prefix q p" if "q \<in> set (ancestors (butlast p)) \<union> {butlast p}" for q
    using that b by (auto simp: ancestors_iff dest: prefix_order.less_trans)
  from False f na have "makedirs (butlast p) s = Inr (add_dirs (butlast p) s)"
    by (simp add: makedirs_def)
  then show ?thesis
    using new by (auto simp: add_dirs_def)
qed

lemma extract_member_succeeds:
  assumes len: "d \<noteq> []" "p \<noteq> []" and nd: "d @ p \<notin> dirs s" and nf: "\<not> file_above (d @ p) s"
  shows "\<exists>s1. extract_member d (p, c) s = (None, s1) \<and> files s1 = (files s)(d @ p \<mapsto> c)
     \<and> fetched s1 = fetched s \<and> profiles s1 = profiles s
     \<and> (\<forall>q \<in> dirs s1. q \<in> dirs s \<or> (q \<noteq> [] \<and> strict_prefix q (d @ p)))"
proof -
  from len have l2: "2 \<le> length (d @ p)"
    by (cases d; cases p) simp_all
  from makedirs_for_member [OF l2 nf] obtain s1 where
    mk: "makedirs (butlast (d @ p)) s = Inr s1" and keep: "files s1 = files s"
      "fetched s1 = fetched s" "profiles s1 = profiles s"
    and parent: "butlast (d @ p) \<in> dirs s1"
    and new: "\<forall>q \<in> dirs s1. q \<in> dirs s \<or> (q \<noteq> [] \<and> strict_prefix q (d @ p))"
    by blast
  have nd1: "d @ p \<notin> dirs s1"
    using new nd by auto
  show ?thesis
    using mk keep parent new nd1 by (simp add: extract_member_def write_file_def)
qed


lemma extractable_Cons:
  "extractable d (m # ms) s \<longleftrightarrow>
     fst m \<noteq> [] \<and> d @ fst m \<notin> dirs s \<and> \<not> file_above (d @ fst m) s \<and>
     (\<forall>m' \<in> set ms. \<not> prefix (fst m) (fst m') \<and> \<not> prefix (fst m') (fst m)) \<and>
     extractable d ms s"
  by (auto simp: extractable_def list_all_iff)

lemma extractable_member:
  "extractable d ms s \<Longrightarrow> m \<in> set ms \<Longrightarrow>
     fst m \<noteq> [] \<and> d @ fst m \<notin> dirs s \<and> \<not> file_above (d @ fst m) s"
  by (auto simp: extractable_def list_all_iff)

lemma extractable_step:
  assumes ext: "extractable d ms s"
    and inc: "\<forall>m' \<in> set ms. \<not> prefix p (fst m') \<and> \<not> prefix (fst m') p"
    and files1: "files s1 = (files s)(d @ p \<mapsto> c)"
    and dirs1: "\<forall>q \<in> dirs s1. q \<in> dirs s \<or> (q \<noteq> [] \<and> strict_prefix q (d @ p))"
  shows "extractable d ms s1"
proof -
  have "fst m \<noteq> [] \<and> d @ fst m \<notin> dirs s1 \<and> \<not> file_above (d @ fst m) s1" if m: "m \<in> set ms" for m
  proof -
    from extractable_member [OF ext m]
    have ne: "fst m \<noteq> []" and nd: "d @ fst m \<notin> dirs s" and nf: "\<not> file_above (d @ fst m) s"
      by simp_all
    from inc m have np: "\<not> prefix p (fst m)" "\<not> prefix (fst m) p" by simp_all
    have nd1: "d @ fst m \<notin> dirs s1"
    proof
      assume "d @ fst m \<in> dirs s1"
      with dirs1 nd have "strict_prefix (d @ fst m) (d @ p)" by blast
      then have "prefix (fst m) p" by (simp add: strict_prefix_def)
      with np show False by simp
    qed
    have nf1: "\<not> file_above (d @ fst m) s1"
    proof
      assume "file_above (d @ fst m) s1"
      then obtain q where q: "q \<noteq> []" "strict_prefix q (d @ fst m)" "files s1 q \<noteq> None"
        by (auto simp: file_above_iff)
      show False
      proof (cases "q = d @ p")
        case True
        with q have "prefix p (fst m)" by (simp add: strict_prefix_def)
        with np show False by simp
      next
        case False
        with q files1 have "files s q \<noteq> None" by simp
        with q nf show False by (auto simp: file_above_iff)
      qed
    qed
    from ne nd1 nf1 show ?thesis by simp
  qed
  with ext show ?thesis by (auto simp: extractable_def list_all_iff)
qed

lemma extractall_succeeds:
  assumes d: "d \<noteq> []"
  shows "extractable d ms s \<Longrightarrow>
     \<exists>s'. extractall ms d s = (None, s') \<and> fetched s' = fetched s \<and> profiles s' = profiles s
       \<and> (\<forall>m \<in> set ms. files s' (d @ fst m) = Some (snd m))
       \<and> (\<forall>q. q \<notin> (\<lambda>m. d @ fst m) ` set ms \<longrightarrow> files s' q = files s q)"
proof (induction ms arbitrary: s)
  case Nil
  then show ?case by simp
next
  case (Cons m ms)
  obtain p c where m: "m = (p, c)" by (cases m)
  from Cons.prems m have ne: "p \<noteq> []" and nd: "d @ p \<notin> dirs s"
    and nf: "\<not> file_above (d @ p) s"
    and inc: "\<forall>m' \<in> set ms. \<not> prefix p (fst m') \<and> \<not> prefix (fst m') p"
    and ext: "extractable d ms s"
    by (simp_all add: extractable_Cons)
  from extract_member_succeeds [OF d ne nd nf, of c] obtain s1 where
    first: "extract_member d (p, c) s = (None, s1)"
    and files1: "files s1 = (files s)(d @ p \<mapsto> c)"
    and keep1: "fetched s1 = fetched s" "profiles s1 = profiles s"
    and dirs1: "\<forall>q \<in> dirs s1. q \<in> dirs s \<or> (q \<noteq> [] \<and> strict_prefix q (d @ p))"
    by blast
  have ext1: "extractable d ms s1"
    using ext inc files1 dirs1 by (rule extractable_step)
  from Cons.IH [OF ext1] obtain s' where
    rest: "extractall ms d s1 = (None, s')"
    and keep: "fetched s' = fetched s1" "profiles s' = profiles s1"
    and written: "\<forall>m \<in> set ms. files s' (d @ fst m) = Some (snd m)"
    and frame: "\<forall>q. q \<notin> (\<lambda>m. d @ fst m) ` set ms \<longrightarrow> files s' q = files s1 q"
    by blast
  have run: "extractall (m # ms) d s = (None, s')"
    by (simp add: m first rest)
  have other: "d @ p \<notin> (\<lambda>m. d @ fst m) ` set ms"
    using inc by auto
  with frame files1 have own: "files s' (d @ p) = Some c" by simp
  have frame': "\<forall>q. q \<notin> (\<lambda>m. d @ fst m) ` set (m # ms) \<longrightarrow> files s' q = files s q"
    using frame files1 by (auto simp: m)
  from run keep keep1 written own frame' show ?case
    by (auto simp: m)
qed


lemma extractable_other_file:
  assumes ext: "extractable d ms s"
    and dirs1: "dirs s1 = dirs s"
    and files1: "files s1 = (files s)(z \<mapsto> b)"
    and z: "\<forall>m \<in> set ms. \<not> prefix z (d @ fst m)"
  shows "extractable d ms s1"
proof -
  have "\<not> file_above (d @ fst m) s1" if m: "m \<in> set ms" for m
  proof
    assume "file_above (d @ fst m) s1"
    then obtain q where q: "q \<noteq> []" "strict_prefix q (d @ fst m)" "files s1 q \<noteq> None"
      by (auto simp: file_above_iff)
    from q z m have "q \<noteq> z" by (auto simp: strict_prefix_def)
    with q files1 have "files s q \<noteq> None" by simp
    with q extractable_member [OF ext m] show False by (auto simp: file_above_iff)
  qed
  with ext dirs1 show ?thesis by (auto simp: extractable_def list_all_iff)
qed

lemma fetch_to_body:
  assumes "net u = Body b" and "p \<notin> dirs s" and "butlast p \<in> dirs s"
  shows "fetch_to net u p s = (None, s\<lparr>fetched := fetched s @ [u], files := (files s)(p \<mapsto> b)\<rparr>)"
  using assms by (simp add: fetch_to_def Let_def write_file_def)

lemma zip_not_under_java: "\<not> prefix (zip_path u) (JAVA_DIRECTORY @ p)"
  by (simp add: zip_path_def JAVA_DIRECTORY_def APPLICATION_DIRECTORY_def TEMP_DIRECTORY_def)

lemma zip_parent: "butlast (zip_path u) = TEMP_DIRECTORY"
  by (simp add: zip_path_def)

lemma JRE_registry:
  "JRE_DIRECTORIES v = None \<longleftrightarrow> v \<noteq> 8 \<and> v \<noteq> 17"
  "JRE_DOWNLOAD_URLS v = None \<longleftrightarrow> v \<noteq> 8 \<and> v \<noteq> 17"
  by (auto simp: JRE_DIRECTORIES_def JRE_DOWNLOAD_URLS_def)

lemma download_java_fresh:
  assumes jd: "JRE_DIRECTORIES v = Some jd" and u: "JRE_DOWNLOAD_URLS v = Some u"
    and absent: "\<not> exists_path jd s"
    and net: "net u = Body b" and unzip: "unzip b = Some ms"
    and temp: "TEMP_DIRECTORY \<in> dirs s" and zd: "zip_path u \<notin> dirs s"
    and ext: "extractable JAVA_DIRECTORY ms s"
  shows "\<exists>s'. download_java net unzip v s = (None, s')
     \<and> fetched s' = fetched s @ [u]
     \<and> (\<forall>m \<in> set ms. files s' (JAVA_DIRECTORY @ fst m) = Some (snd m))
     \<and> files s' (zip_path u) = None"
proof -
  let ?z = "zip_path u"
  let ?s1 = "s\<lparr>fetched := fetched s @ [u], files := (files s)(?z \<mapsto> b)\<rparr>"
  have fetch: "fetch_to net u ?z s = (None, ?s1)"
    using net zd temp by (intro fetch_to_body) (simp_all add: zip_parent)
  have z: "\<forall>m \<in> set ms. \<not> prefix ?z (JAVA_DIRECTORY @ fst m)"
    using zip_not_under_java by blast
  have ext1: "extractable JAVA_DIRECTORY ms ?s1"
    by (rule extractable_other_file [OF ext _ _ z]) simp_all
  have jne: "JAVA_DIRECTORY \<noteq> []" by (simp add: JAVA_DIRECTORY_def)
  from extractall_succeeds [OF jne ext1] obtain s2 where
    run: "extractall ms JAVA_DIRECTORY ?s1 = (None, s2)"
    and keep: "fetched s2 = fetched ?s1"
    and written: "\<forall>m \<in> set ms. files s2 (JAVA_DIRECTORY @ fst m) = Some (snd m)"
    and frame: "\<forall>q. q \<notin> (\<lambda>m. JAVA_DIRECTORY @ fst m) ` set ms \<longrightarrow> files s2 q = files ?s1 q"
    by blast
  have zne: "?z \<noteq> JAVA_DIRECTORY @ p" for p
    using zip_not_under_java [of u p] by auto
  then have "?z \<notin> (\<lambda>m. JAVA_DIRECTORY @ fst m) ` set ms" by auto
  with frame have zfile: "files s2 ?z = Some b" by simp
  let ?s3 = "s2\<lparr>files := (files s2)(?z := None)\<rparr>"
  have del: "unlink ?z s2 = Inr ?s3"
    using zfile by (simp add: unlink_def)
  have result: "download_java net unzip v s = (None, ?s3)"
    using jd u absent fetch unzip run del by (simp add: download_java_def)
  have "\<forall>m \<in> set ms. files ?s3 (JAVA_DIRECTORY @ fst m) = Some (snd m)"
  proof
    fix m assume "m \<in> set ms"
    with written have "files s2 (JAVA_DIRECTORY @ fst m) = Some (snd m)" by simp
    moreover have "JAVA_DIRECTORY @ fst m \<noteq> ?z" using zne [of "fst m"] by simp
    ultimately show "files ?s3 (JAVA_DIRECTORY @ fst m) = Some (snd m)" by simp
  qed
  with result keep show ?thesis by auto
qed



section \<open>Sanitization: the claims\<close>

text \<open>
  C6. For every input string, \<open>format_name\<close> replaces each slash, backslash, double quote
  and single quote of the trimmed name by an underscore and leaves the other characters
  as they are; a name whose trimmed form is exactly \<open>..\<close> is mapped to \<open>__\<close>; the result
  never contains a slash, a backslash, a double quote or a single quote; and
  \<open>format_name "../../x"\<close> is \<open>.._.._x\<close>.
\<close>

theorem format_name_sanitizes:
  "format_name s =
     (if str_strip s = ''..'' then ''__''
      else map (\<lambda>c. if c = CHR ''/'' \<or> c = CHR 0x5C \<or> c = CHR 0x22 \<or> c = CHR 0x27
                     then CHR ''_'' else c) (str_strip s))
   \<and> (str_strip s = ''..'' \<longrightarrow> format_name s = ''__'')
   \<and> CHR ''/'' \<notin> set (format_name s) \<and> CHR 0x5C \<notin> set (format_name s)
   \<and> CHR 0x22 \<notin> set (format_name s) \<and> CHR 0x27 \<notin> set (format_name s)
   \<and> format_name ''../../x'' = ''.._.._x''"
proof -
  have shape: "format_name s =
     (if str_strip s = ''..'' then ''__''
      else map (\<lambda>c. if c = CHR ''/'' \<or> c = CHR 0x5C \<or> c = CHR 0x22 \<or> c = CHR 0x27
                     then CHR ''_'' else c) (str_strip s))"
    using format_name_unfold [of s] by (simp add: unsafe_char_def)
  have dots: "str_strip s = ''..'' \<longrightarrow> format_name s = ''__''"
    by (simp add: format_name_unfold)
  have free: "unsafe_char c \<Longrightarrow> c \<notin> set (format_name s)" for c
    using format_name_no_unsafe by blast
  have ex: "format_name ''../../x'' = ''.._.._x''"
    by (simp add: format_name_def str_strip_def str_replace_def isspace_def)
  from free [of "CHR ''/''"] free [of "CHR 0x5C"] free [of "CHR 0x22"] free [of "CHR 0x27"]
  have "CHR ''/'' \<notin> set (format_name s)" "CHR 0x5C \<notin> set (format_name s)"
    "CHR 0x22 \<notin> set (format_name s)" "CHR 0x27 \<notin> set (format_name s)"
    by (simp_all add: unsafe_char_def)
  with shape dots ex show ?thesis by blast
qed

theorem format_name_sanitizes_witness:
  "str_strip (CHR 0x20 # ''..'' @ [CHR 0x0A]) = ''..''
   \<and> format_name (CHR 0x20 # ''..'' @ [CHR 0x0A]) = ''__''
   \<and> CHR ''/'' \<notin> set (format_name (CHR 0x20 # ''..'' @ [CHR 0x0A]))"
proof -
  have h: "str_strip (CHR 0x20 # ''..'' @ [CHR 0x0A]) = ''..''"
    by (simp add: str_strip_def isspace_def)
  from format_name_sanitizes [of "CHR 0x20 # ''..'' @ [CHR 0x0A]"] h
  show ?thesis by blast
qed

text \<open>
  C10. \<open>format_name\<close> is idempotent: for every string, sanitizing the sanitized name gives
  the sanitized name again. So a name that \<open>create_profile\<close> stored in the registry is
  unchanged when it is sanitized again: \<open>profile_exists\<close> and \<open>delete_profile\<close> behave on
  the sanitized name as on the name it came from.
\<close>

theorem format_name_idempotent:
  "format_name (format_name s) = format_name s
   \<and> profile_exists (format_name s) st = profile_exists s st
   \<and> delete_profile (format_name s) st = delete_profile s st"
proof -
  let ?t = "format_name s"
  have strip: "str_strip ?t = ?t"
    using format_name_no_space_ends [of s] by (intro str_strip_fixed) simp
  have same: "map (\<lambda>c. if unsafe_char c then CHR ''_'' else c) ?t = ?t"
    by (rule map_idI) (simp add: format_name_no_unsafe)
  have "?t \<noteq> ''..''"
    by (auto simp: format_name_unfold sanitized_eq_dotdot)
  then have idem: "format_name ?t = ?t"
    using format_name_unfold [of ?t] by (simp add: strip same)
  have ex: "profile_exists ?t st = profile_exists s st"
    by (simp add: profile_exists_def idem)
  have del: "delete_profile ?t st = delete_profile s st"
    by (simp add: delete_profile_def idem)
  from idem ex del show ?thesis by (intro conjI)
qed

section \<open>Rule evaluation: the claims\<close>

text \<open>
  C1. For every list of rules of the data model's shape, \<open>allowed_by_rules\<close> returns what the
  specification's algorithm returns for the target platform: it starts with the flag false,
  returns true at once on an allow rule whose OS constraint matches, returns false at once
  on a disallow rule whose OS constraint matches, sets the flag on an allow or disallow rule
  without a constraint, ignores a rule whose constraint does not match, and returns the flag
  at the end. So the first rule with a matching constraint decides, wherever it stands and
  whatever follows it, and without one the last unconstrained rule does. For the list of an
  unconstrained allow and a disallow constrained to another platform the result is true.
\<close>

theorem allowed_by_rules_algorithm:
  "(list_all wf_rule rs \<longrightarrow> allowed_by_rules rs = Inr (Allowed rs target_platform))
   \<and> (list_all wf_rule rs \<longrightarrow> allowed_by_rules rs = Inr (decided_by target_platform rs))
   \<and> (list_all wf_rule pre \<and> \<not> list_ex (matches target_platform) pre \<and> wf_rule r \<and>
        matches target_platform r \<longrightarrow>
          allowed_by_rules (pre @ r # post) = Inr (allows r))
   \<and> (other \<noteq> target_platform \<longrightarrow>
        allowed_by_rules
          [\<lparr>action = Some ''allow'', os = None\<rparr>,
           \<lparr>action = Some ''disallow'', os = Some \<lparr>os_name = Some other\<rparr>\<rparr>] = Inr True)"
proof -
  have a: "list_all wf_rule rs \<longrightarrow> allowed_by_rules rs = Inr (Allowed rs target_platform)"
    by (simp add: allowed_by_rules_def Allowed_def allowed_loop_spec)
  have b: "list_all wf_rule rs \<longrightarrow> allowed_by_rules rs = Inr (decided_by target_platform rs)"
  proof
    assume w: "list_all wf_rule rs"
    show "allowed_by_rules rs = Inr (decided_by target_platform rs)"
    proof (cases "List.find (matches target_platform) rs")
      case None
      with w show ?thesis
        by (simp add: allowed_by_rules_def allowed_loop_spec Allowed_from_no_match decided_by_def)
    next
      case (Some r)
      with w show ?thesis
        by (simp add: allowed_by_rules_def allowed_loop_spec Allowed_from_match decided_by_def)
    qed
  qed
  have c: "list_all wf_rule pre \<and> \<not> list_ex (matches target_platform) pre \<and> wf_rule r \<and>
        matches target_platform r \<longrightarrow>
          allowed_by_rules (pre @ r # post) = Inr (allows r)"
    by (simp add: allowed_by_rules_def allowed_loop_short_circuit)
  have d: "other \<noteq> target_platform \<longrightarrow>
        allowed_by_rules
          [\<lparr>action = Some ''allow'', os = None\<rparr>,
           \<lparr>action = Some ''disallow'', os = Some \<lparr>os_name = Some other\<rparr>\<rparr>] = Inr True"
    by (simp add: allowed_by_rules_def target_platform_def)
  from a b c d show ?thesis by blast
qed

theorem allowed_by_rules_algorithm_witness:
  "list_all wf_rule
     [\<lparr>action = Some ''disallow'', os = None\<rparr>,
      \<lparr>action = Some ''allow'', os = Some \<lparr>os_name = Some ''windows''\<rparr>\<rparr>]
   \<and> allowed_by_rules
       [\<lparr>action = Some ''disallow'', os = None\<rparr>,
        \<lparr>action = Some ''allow'', os = Some \<lparr>os_name = Some ''windows''\<rparr>\<rparr>] = Inr True
   \<and> allowed_by_rules
       [\<lparr>action = Some ''disallow'', os = None\<rparr>,
        \<lparr>action = Some ''allow'', os = Some \<lparr>os_name = Some ''windows''\<rparr>\<rparr>,
        \<lparr>action = None, os = None\<rparr>] = Inr True
   \<and> ''osx'' \<noteq> target_platform
   \<and> allowed_by_rules
       [\<lparr>action = Some ''allow'', os = None\<rparr>,
        \<lparr>action = Some ''disallow'', os = Some \<lparr>os_name = Some ''osx''\<rparr>\<rparr>] = Inr True"
proof -
  let ?d = "\<lparr>action = Some ''disallow'', os = None\<rparr>"
  let ?a = "\<lparr>action = Some ''allow'', os = Some \<lparr>os_name = Some ''windows''\<rparr>\<rparr>"
  let ?bad = "\<lparr>action = None, os = None\<rparr>"
  have wf: "list_all wf_rule [?d, ?a]"
    by (simp add: wf_rule_def allows_def disallows_def)
  have wfd: "list_all wf_rule [?d]" and wfa: "wf_rule ?a"
    using wf by simp_all
  have nm: "\<not> list_ex (matches target_platform) [?d]"
    by (simp add: matches_def)
  have m: "matches target_platform ?a"
    by (simp add: matches_def target_platform_def)
  have al: "allows ?a" by (simp add: allows_def)
  have dec: "decided_by target_platform [?d, ?a]"
    using m al by (simp add: decided_by_def matches_def)
  have ne: "''osx'' \<noteq> target_platform" by (simp add: target_platform_def)
  note t1 = allowed_by_rules_algorithm [of "[?d, ?a]" "[?d]" ?a "[?bad]" "''osx''"]
  have "allowed_by_rules [?d, ?a] = Inr (decided_by target_platform [?d, ?a])"
    by (rule t1 [THEN conjunct2, THEN conjunct1, THEN mp]) (rule wf)
  with dec have r1: "allowed_by_rules [?d, ?a] = Inr True" by simp
  have "allowed_by_rules ([?d] @ ?a # [?bad]) = Inr (allows ?a)"
    by (rule t1 [THEN conjunct2, THEN conjunct2, THEN conjunct1, THEN mp])
      (intro conjI wfd nm wfa m)
  with al have r2: "allowed_by_rules [?d, ?a, ?bad] = Inr True" by simp
  have r3: "allowed_by_rules
       [\<lparr>action = Some ''allow'', os = None\<rparr>,
        \<lparr>action = Some ''disallow'', os = Some \<lparr>os_name = Some ''osx''\<rparr>\<rparr>] = Inr True"
    by (rule t1 [THEN conjunct2, THEN conjunct2, THEN conjunct2, THEN mp]) (rule ne)
  from wf r1 r2 ne r3 show ?thesis by simp
qed

text \<open>
  C9. The rule evaluator returns false on the empty rule list, so a library entry whose
  \<open>rules\<close> key holds the empty list contributes no URL, whatever else it holds, while the same
  entry without a \<open>rules\<close> key contributes its native and main URLs: the two shapes of
  "no rules" behave oppositely.
\<close>

theorem empty_rules_versus_no_rules:
  "allowed_by_rules [] = Inr False
   \<and> get_library_urls (l\<lparr>rules := Some []\<rparr> # ls) = get_library_urls ls
   \<and> (wf_library (l\<lparr>rules := None\<rparr>) \<longrightarrow>
        get_library_urls [l\<lparr>rules := None\<rparr>]
          = Inr (url_list (native_artifact l) @ url_list (main_artifact l)))
   \<and> (wf_library (l\<lparr>rules := None\<rparr>) \<longrightarrow>
        get_library_urls (l\<lparr>rules := None\<rparr> # ls)
          = (case get_library_urls ls of
               Inl e \<Rightarrow> Inl e
             | Inr us \<Rightarrow> Inr (url_list (native_artifact l) @ url_list (main_artifact l) @ us)))"
proof -
  have a: "allowed_by_rules [] = Inr False"
    by (simp add: allowed_by_rules_def)
  have b: "get_library_urls (l\<lparr>rules := Some []\<rparr> # ls) = get_library_urls ls"
    by (simp add: get_library_urls_def skipped_by_rules_def a)
  have n: "native_artifact (l\<lparr>rules := None\<rparr>) = native_artifact l"
    "main_artifact (l\<lparr>rules := None\<rparr>) = main_artifact l"
    "\<not> rejected (l\<lparr>rules := None\<rparr>)"
    by (simp_all add: native_artifact_def main_artifact_def rejected_def)
  have c: "library_contribution (l\<lparr>rules := None\<rparr>)
      = Inr (url_list (native_artifact l) @ url_list (main_artifact l))"
    if "wf_library (l\<lparr>rules := None\<rparr>)"
    using library_contribution_wf [OF that] by (simp add: entry_urls_def n)
  have d: "wf_library (l\<lparr>rules := None\<rparr>) \<longrightarrow>
        get_library_urls [l\<lparr>rules := None\<rparr>]
          = Inr (url_list (native_artifact l) @ url_list (main_artifact l))"
    by (simp add: get_library_urls_def get_library_urls_loop_collect c)
  have e: "wf_library (l\<lparr>rules := None\<rparr>) \<longrightarrow>
        get_library_urls (l\<lparr>rules := None\<rparr> # ls)
          = (case get_library_urls ls of
               Inl e \<Rightarrow> Inl e
             | Inr us \<Rightarrow> Inr (url_list (native_artifact l) @ url_list (main_artifact l) @ us))"
    by (simp add: get_library_urls_def get_library_urls_loop_collect c split: sum.splits)
  from a b d e show ?thesis by blast
qed


theorem empty_rules_versus_no_rules_witness:
  "wf_library (\<lparr>rules = Some [], downloads = Some
       \<lparr>classifiers = None, artifact = Some \<lparr>url = Some ''https://h/c/C.jar''\<rparr>\<rparr>\<rparr>
       \<lparr>rules := None\<rparr>)
   \<and> get_library_urls [\<lparr>rules = Some [], downloads = Some
       \<lparr>classifiers = None, artifact = Some \<lparr>url = Some ''https://h/c/C.jar''\<rparr>\<rparr>\<rparr>
       \<lparr>rules := None\<rparr>] = Inr [''https://h/c/C.jar'']
   \<and> get_library_urls [\<lparr>rules = Some [], downloads = Some
       \<lparr>classifiers = None, artifact = Some \<lparr>url = Some ''https://h/c/C.jar''\<rparr>\<rparr>\<rparr>
       \<lparr>rules := Some []\<rparr>] = Inr []"
proof -
  let ?l = "\<lparr>rules = Some [], downloads = Some
       \<lparr>classifiers = None, artifact = Some \<lparr>url = Some ''https://h/c/C.jar''\<rparr>\<rparr>\<rparr>"
  note t = empty_rules_versus_no_rules [of ?l "[]"]
  have wf: "wf_library (?l\<lparr>rules := None\<rparr>)"
    by (simp add: wf_library_def wf_artifact_def native_artifact_def main_artifact_def)
  have own: "url_list (native_artifact ?l) @ url_list (main_artifact ?l) = [''https://h/c/C.jar'']"
    by (simp add: url_list_def native_artifact_def main_artifact_def)
  have "get_library_urls [?l\<lparr>rules := None\<rparr>]
      = Inr (url_list (native_artifact ?l) @ url_list (main_artifact ?l))"
    by (rule t [THEN conjunct2, THEN conjunct2, THEN conjunct1, THEN mp]) (rule wf)
  then have inc: "get_library_urls [?l\<lparr>rules := None\<rparr>] = Inr [''https://h/c/C.jar'']"
    by (simp only: own)
  have "get_library_urls (?l\<lparr>rules := Some []\<rparr> # []) = get_library_urls []"
    by (rule t [THEN conjunct2, THEN conjunct1])
  then have exc: "get_library_urls [?l\<lparr>rules := Some []\<rparr>] = Inr []"
    by (simp add: get_library_urls_def)
  from wf inc exc show ?thesis by (intro conjI)
qed

section \<open>Library URLs and the classpath: the claims\<close>

text \<open>
  C3. For every list of library entries of the data model's shape, \<open>get_library_urls\<close>
  skips each entry that carries rules the rule evaluator rejects, and for every other entry
  appends the URL of the native artifact for the target platform, when it has one, and then
  the URL of the main artifact, when it has one, in the order of the entries. The classpath
  of \<open>launch_profile\<close> is, for these URLs in that order, the file in the libraries directory
  named by what follows the last slash of the URL, followed by the client jar, the file
  \<open>version_id.jar\<close> in the versions directory, as its last entry; a URL that ends in a slash
  gives the libraries directory itself. For the list of an entry A with rejected rules, an
  entry B with a native and a main artifact and an entry C with a main artifact only, the
  classpath is B's native file, B's main file, C's main file and the client jar. The
  classpath is stated for URLs whose last segment, and a version id whose jar name, is a
  plain segment.
\<close>

theorem library_urls_and_classpath_order:
  "(list_all wf_library ls \<longrightarrow> get_library_urls ls = Inr (ResolveLibraryURLs ls))
   \<and> (list_all wf_library ls
        \<and> list_all (\<lambda>u. plain_segment (last_segment u)) (ResolveLibraryURLs ls)
        \<and> plain_segment (version_id @ ''.jar'') \<longrightarrow>
        launch_classpath version_id ls =
          Inr (map library_file (ResolveLibraryURLs ls) @ [client_jar version_id]))
   \<and> (file_name n \<longrightarrow>
        library_file (base @ ''/'' @ n)
          = [''%LOCALAPPDATA%'', ''MyMinecraftLauncher'', ''libraries'', n])
   \<and> library_file (base @ ''/'') = [''%LOCALAPPDATA%'', ''MyMinecraftLauncher'', ''libraries'']
   \<and> (plain_segment (version_id @ ''.jar'') \<longrightarrow>
        client_jar version_id
          = [''%LOCALAPPDATA%'', ''MyMinecraftLauncher'', ''versions'', version_id @ ''.jar''])
   \<and> (allowed_by_rules ra = Inr False \<and> file_name bn \<and> file_name bm \<and> file_name cm
        \<and> plain_segment (version_id @ ''.jar'') \<longrightarrow>
        launch_classpath version_id
          [\<lparr>rules = Some ra, downloads = da\<rparr>,
           \<lparr>rules = None, downloads = Some
              \<lparr>classifiers = Some [''natives-windows'' \<mapsto> \<lparr>url = Some (ub @ ''/'' @ bn)\<rparr>],
               artifact = Some \<lparr>url = Some (ub' @ ''/'' @ bm)\<rparr>\<rparr>\<rparr>,
           \<lparr>rules = None, downloads = Some
              \<lparr>classifiers = None, artifact = Some \<lparr>url = Some (uc @ ''/'' @ cm)\<rparr>\<rparr>\<rparr>]
        = Inr [[''%LOCALAPPDATA%'', ''MyMinecraftLauncher'', ''libraries'', bn],
               [''%LOCALAPPDATA%'', ''MyMinecraftLauncher'', ''libraries'', bm],
               [''%LOCALAPPDATA%'', ''MyMinecraftLauncher'', ''libraries'', cm],
               [''%LOCALAPPDATA%'', ''MyMinecraftLauncher'', ''versions'', version_id @ ''.jar'']])"
proof -
  have a: "list_all wf_library ls \<longrightarrow> get_library_urls ls = Inr (ResolveLibraryURLs ls)"
    by (simp add: get_library_urls_wf)
  have b: "list_all wf_library ls
        \<and> list_all (\<lambda>u. plain_segment (last_segment u)) (ResolveLibraryURLs ls)
        \<and> plain_segment (version_id @ ''.jar'') \<longrightarrow>
        launch_classpath version_id ls =
          Inr (map library_file (ResolveLibraryURLs ls) @ [client_jar version_id])"
    by (simp add: launch_classpath_def get_library_urls_wf)
  have c: "file_name n \<longrightarrow>
        library_file (base @ ''/'' @ n)
          = [''%LOCALAPPDATA%'', ''MyMinecraftLauncher'', ''libraries'', n]"
    by (simp add: library_file_of_name)
  have d: "library_file (base @ ''/'') = [''%LOCALAPPDATA%'', ''MyMinecraftLauncher'', ''libraries'']"
    by (simp add: library_file_of_slash)
  have e: "plain_segment (version_id @ ''.jar'') \<longrightarrow>
        client_jar version_id
          = [''%LOCALAPPDATA%'', ''MyMinecraftLauncher'', ''versions'', version_id @ ''.jar'']"
    by (simp add: client_jar_path)
  have f: "allowed_by_rules ra = Inr False \<and> file_name bn \<and> file_name bm \<and> file_name cm
        \<and> plain_segment (version_id @ ''.jar'') \<longrightarrow>
        launch_classpath version_id
          [\<lparr>rules = Some ra, downloads = da\<rparr>,
           \<lparr>rules = None, downloads = Some
              \<lparr>classifiers = Some [''natives-windows'' \<mapsto> \<lparr>url = Some (ub @ ''/'' @ bn)\<rparr>],
               artifact = Some \<lparr>url = Some (ub' @ ''/'' @ bm)\<rparr>\<rparr>\<rparr>,
           \<lparr>rules = None, downloads = Some
              \<lparr>classifiers = None, artifact = Some \<lparr>url = Some (uc @ ''/'' @ cm)\<rparr>\<rparr>\<rparr>]
        = Inr [[''%LOCALAPPDATA%'', ''MyMinecraftLauncher'', ''libraries'', bn],
               [''%LOCALAPPDATA%'', ''MyMinecraftLauncher'', ''libraries'', bm],
               [''%LOCALAPPDATA%'', ''MyMinecraftLauncher'', ''libraries'', cm],
               [''%LOCALAPPDATA%'', ''MyMinecraftLauncher'', ''versions'', version_id @ ''.jar'']]"
  proof
    assume h: "allowed_by_rules ra = Inr False \<and> file_name bn \<and> file_name bm \<and> file_name cm
        \<and> plain_segment (version_id @ ''.jar'')"
    then have urls: "get_library_urls
          [\<lparr>rules = Some ra, downloads = da\<rparr>,
           \<lparr>rules = None, downloads = Some
              \<lparr>classifiers = Some [''natives-windows'' \<mapsto> \<lparr>url = Some (ub @ ''/'' @ bn)\<rparr>],
               artifact = Some \<lparr>url = Some (ub' @ ''/'' @ bm)\<rparr>\<rparr>\<rparr>,
           \<lparr>rules = None, downloads = Some
              \<lparr>classifiers = None, artifact = Some \<lparr>url = Some (uc @ ''/'' @ cm)\<rparr>\<rparr>\<rparr>]
       = Inr [ub @ ''/'' @ bn, ub' @ ''/'' @ bm, uc @ ''/'' @ cm]"
      by (simp add: get_library_urls_def skipped_by_rules_def
          append_native_def append_artifact_def get_url_def)
    from h have files: "library_file (ub @ ''/'' @ bn) = [''%LOCALAPPDATA%'', ''MyMinecraftLauncher'', ''libraries'', bn]"
      "library_file (ub' @ ''/'' @ bm) = [''%LOCALAPPDATA%'', ''MyMinecraftLauncher'', ''libraries'', bm]"
      "library_file (uc @ ''/'' @ cm) = [''%LOCALAPPDATA%'', ''MyMinecraftLauncher'', ''libraries'', cm]"
      by (simp_all add: library_file_of_name)
    show "launch_classpath version_id
          [\<lparr>rules = Some ra, downloads = da\<rparr>,
           \<lparr>rules = None, downloads = Some
              \<lparr>classifiers = Some [''natives-windows'' \<mapsto> \<lparr>url = Some (ub @ ''/'' @ bn)\<rparr>],
               artifact = Some \<lparr>url = Some (ub' @ ''/'' @ bm)\<rparr>\<rparr>\<rparr>,
           \<lparr>rules = None, downloads = Some
              \<lparr>classifiers = None, artifact = Some \<lparr>url = Some (uc @ ''/'' @ cm)\<rparr>\<rparr>\<rparr>]
        = Inr [[''%LOCALAPPDATA%'', ''MyMinecraftLauncher'', ''libraries'', bn],
               [''%LOCALAPPDATA%'', ''MyMinecraftLauncher'', ''libraries'', bm],
               [''%LOCALAPPDATA%'', ''MyMinecraftLauncher'', ''libraries'', cm],
               [''%LOCALAPPDATA%'', ''MyMinecraftLauncher'', ''versions'', version_id @ ''.jar'']]"
      unfolding launch_classpath_def urls using files by (simp add: client_jar_path)
  qed
  from a b c d e f show ?thesis by (intro conjI)
qed


theorem library_urls_and_classpath_order_witness:
  "list_all wf_library
     [\<lparr>rules = Some [\<lparr>action = Some ''allow'', os = Some \<lparr>os_name = Some ''osx''\<rparr>\<rparr>],
       downloads = Some \<lparr>classifiers = None, artifact = Some \<lparr>url = Some ''https://h/a/A.jar''\<rparr>\<rparr>\<rparr>,
      \<lparr>rules = None, downloads = Some
         \<lparr>classifiers = Some [''natives-windows'' \<mapsto> \<lparr>url = Some ''https://h/b/B-natives.jar''\<rparr>],
          artifact = Some \<lparr>url = Some ''https://h/b/B.jar''\<rparr>\<rparr>\<rparr>,
      \<lparr>rules = None, downloads = Some
         \<lparr>classifiers = None, artifact = Some \<lparr>url = Some ''https://h/c/C.jar''\<rparr>\<rparr>\<rparr>]
   \<and> allowed_by_rules [\<lparr>action = Some ''allow'', os = Some \<lparr>os_name = Some ''osx''\<rparr>\<rparr>]
       = Inr False
   \<and> file_name ''B-natives.jar'' \<and> file_name ''B.jar'' \<and> file_name ''C.jar''
   \<and> plain_segment (''1.8.9'' @ ''.jar'')
   \<and> get_library_urls
     [\<lparr>rules = Some [\<lparr>action = Some ''allow'', os = Some \<lparr>os_name = Some ''osx''\<rparr>\<rparr>],
       downloads = Some \<lparr>classifiers = None, artifact = Some \<lparr>url = Some ''https://h/a/A.jar''\<rparr>\<rparr>\<rparr>,
      \<lparr>rules = None, downloads = Some
         \<lparr>classifiers = Some [''natives-windows'' \<mapsto> \<lparr>url = Some ''https://h/b/B-natives.jar''\<rparr>],
          artifact = Some \<lparr>url = Some ''https://h/b/B.jar''\<rparr>\<rparr>\<rparr>,
      \<lparr>rules = None, downloads = Some
         \<lparr>classifiers = None, artifact = Some \<lparr>url = Some ''https://h/c/C.jar''\<rparr>\<rparr>\<rparr>]
     = Inr [''https://h/b/B-natives.jar'', ''https://h/b/B.jar'', ''https://h/c/C.jar'']
   \<and> launch_classpath ''1.8.9''
     [\<lparr>rules = Some [\<lparr>action = Some ''allow'', os = Some \<lparr>os_name = Some ''osx''\<rparr>\<rparr>],
       downloads = Some \<lparr>classifiers = None, artifact = Some \<lparr>url = Some ''https://h/a/A.jar''\<rparr>\<rparr>\<rparr>,
      \<lparr>rules = None, downloads = Some
         \<lparr>classifiers = Some [''natives-windows'' \<mapsto> \<lparr>url = Some ''https://h/b/B-natives.jar''\<rparr>],
          artifact = Some \<lparr>url = Some ''https://h/b/B.jar''\<rparr>\<rparr>\<rparr>,
      \<lparr>rules = None, downloads = Some
         \<lparr>classifiers = None, artifact = Some \<lparr>url = Some ''https://h/c/C.jar''\<rparr>\<rparr>\<rparr>]
     = Inr [[''%LOCALAPPDATA%'', ''MyMinecraftLauncher'', ''libraries'', ''B-natives.jar''],
            [''%LOCALAPPDATA%'', ''MyMinecraftLauncher'', ''libraries'', ''B.jar''],
            [''%LOCALAPPDATA%'', ''MyMinecraftLauncher'', ''libraries'', ''C.jar''],
            [''%LOCALAPPDATA%'', ''MyMinecraftLauncher'', ''versions'', ''1.8.9.jar'']]
   \<and> launch_classpath ''1.8.9''
     [\<lparr>rules = Some [\<lparr>action = Some ''allow'', os = Some \<lparr>os_name = Some ''osx''\<rparr>\<rparr>],
       downloads = Some \<lparr>classifiers = None, artifact = Some \<lparr>url = Some ''https://h/a/A.jar''\<rparr>\<rparr>\<rparr>,
      \<lparr>rules = None, downloads = Some
         \<lparr>classifiers = Some [''natives-windows'' \<mapsto> \<lparr>url = Some ''https://h/b/B-natives.jar''\<rparr>],
          artifact = Some \<lparr>url = Some ''https://h/b/B.jar''\<rparr>\<rparr>\<rparr>,
      \<lparr>rules = None, downloads = Some
         \<lparr>classifiers = None, artifact = Some \<lparr>url = Some ''https://h/c/C.jar''\<rparr>\<rparr>\<rparr>]
     = Inr [library_file ''https://h/b/B-natives.jar'', library_file ''https://h/b/B.jar'',
            library_file ''https://h/c/C.jar'', client_jar ''1.8.9'']
   \<and> library_file ''https://h/b/B.jar''
       = [''%LOCALAPPDATA%'', ''MyMinecraftLauncher'', ''libraries'', ''B.jar'']
   \<and> client_jar ''1.8.9'' = [''%LOCALAPPDATA%'', ''MyMinecraftLauncher'', ''versions'', ''1.8.9.jar'']"
proof -
  let ?ra = "[\<lparr>action = Some ''allow'', os = Some \<lparr>os_name = Some ''osx''\<rparr>\<rparr>]"
  let ?da = "Some \<lparr>classifiers = None, artifact = Some \<lparr>url = Some ''https://h/a/A.jar''\<rparr>\<rparr>"
  let ?A = "\<lparr>rules = Some ?ra, downloads = ?da\<rparr>"
  let ?B = "\<lparr>rules = None, downloads = Some
         \<lparr>classifiers = Some [''natives-windows'' \<mapsto> \<lparr>url = Some ''https://h/b/B-natives.jar''\<rparr>],
          artifact = Some \<lparr>url = Some ''https://h/b/B.jar''\<rparr>\<rparr>\<rparr>"
  let ?C = "\<lparr>rules = None, downloads = Some
         \<lparr>classifiers = None, artifact = Some \<lparr>url = Some ''https://h/c/C.jar''\<rparr>\<rparr>\<rparr>"
  note t = library_urls_and_classpath_order [where ls = "[?A, ?B, ?C]" and version_id = "''1.8.9''"
      and ra = ?ra and da = ?da and n = "''B.jar''" and base = "''https://h/b''"
      and ub = "''https://h/b''" and bn = "''B-natives.jar''"
      and ub' = "''https://h/b''" and bm = "''B.jar''"
      and uc = "''https://h/c''" and cm = "''C.jar''"]
  have wf: "list_all wf_library [?A, ?B, ?C]"
    by (simp add: wf_library_def wf_rule_def allows_def wf_artifact_def native_artifact_def
        main_artifact_def)
  have rej: "allowed_by_rules ?ra = Inr False"
    by (simp add: allowed_by_rules_def)
  have names: "file_name ''B-natives.jar''" "file_name ''B.jar''" "file_name ''C.jar''"
    by (simp_all add: file_name_def plain_segment_def drive_prefixed_def)
  have jar: "plain_segment (''1.8.9'' @ ''.jar'')"
    by (simp add: plain_segment_def drive_prefixed_def)
  have res: "ResolveLibraryURLs [?A, ?B, ?C]
      = [''https://h/b/B-natives.jar'', ''https://h/b/B.jar'', ''https://h/c/C.jar'']"
    by (simp add: ResolveLibraryURLs_def entry_urls_def rejected_def Allowed_def rule_step_def
        allows_def disallows_def constrained_def matches_def target_platform_def url_list_def
        native_artifact_def main_artifact_def)
  have segs: "list_all (\<lambda>u. plain_segment (last_segment u)) (ResolveLibraryURLs [?A, ?B, ?C])"
    unfolding res by (simp add: last_segment_def plain_segment_def drive_prefixed_def)
  have "get_library_urls [?A, ?B, ?C] = Inr (ResolveLibraryURLs [?A, ?B, ?C])"
    by (rule t [THEN conjunct1, THEN mp]) (rule wf)
  then have urls: "get_library_urls [?A, ?B, ?C]
      = Inr [''https://h/b/B-natives.jar'', ''https://h/b/B.jar'', ''https://h/c/C.jar'']"
    by (simp only: res)
  have "launch_classpath ''1.8.9'' [?A, ?B, ?C]
      = Inr (map library_file (ResolveLibraryURLs [?A, ?B, ?C]) @ [client_jar ''1.8.9''])"
    by (rule t [THEN conjunct2, THEN conjunct1, THEN mp]) (intro conjI wf segs jar)
  then have cp: "launch_classpath ''1.8.9'' [?A, ?B, ?C]
     = Inr [library_file ''https://h/b/B-natives.jar'', library_file ''https://h/b/B.jar'',
            library_file ''https://h/c/C.jar'', client_jar ''1.8.9'']"
    by (simp only: res list.map append.simps)
  have "library_file (''https://h/b'' @ ''/'' @ ''B.jar'')
      = [''%LOCALAPPDATA%'', ''MyMinecraftLauncher'', ''libraries'', ''B.jar'']"
    by (rule t [THEN conjunct2, THEN conjunct2, THEN conjunct1, THEN mp]) (rule names)
  then have lib: "library_file ''https://h/b/B.jar''
      = [''%LOCALAPPDATA%'', ''MyMinecraftLauncher'', ''libraries'', ''B.jar'']"
    by simp
  have "client_jar ''1.8.9''
      = [''%LOCALAPPDATA%'', ''MyMinecraftLauncher'', ''versions'', ''1.8.9'' @ ''.jar'']"
    by (rule t [THEN conjunct2, THEN conjunct2, THEN conjunct2, THEN conjunct2, THEN conjunct1,
          THEN mp]) (rule jar)
  then have cj: "client_jar ''1.8.9''
      = [''%LOCALAPPDATA%'', ''MyMinecraftLauncher'', ''versions'', ''1.8.9.jar'']"
    by simp
  have "launch_classpath ''1.8.9''
          [\<lparr>rules = Some ?ra, downloads = ?da\<rparr>,
           \<lparr>rules = None, downloads = Some
              \<lparr>classifiers = Some [''natives-windows'' \<mapsto>
                   \<lparr>url = Some (''https://h/b'' @ ''/'' @ ''B-natives.jar'')\<rparr>],
               artifact = Some \<lparr>url = Some (''https://h/b'' @ ''/'' @ ''B.jar'')\<rparr>\<rparr>\<rparr>,
           \<lparr>rules = None, downloads = Some
              \<lparr>classifiers = None,
               artifact = Some \<lparr>url = Some (''https://h/c'' @ ''/'' @ ''C.jar'')\<rparr>\<rparr>\<rparr>]
        = Inr [[''%LOCALAPPDATA%'', ''MyMinecraftLauncher'', ''libraries'', ''B-natives.jar''],
               [''%LOCALAPPDATA%'', ''MyMinecraftLauncher'', ''libraries'', ''B.jar''],
               [''%LOCALAPPDATA%'', ''MyMinecraftLauncher'', ''libraries'', ''C.jar''],
               [''%LOCALAPPDATA%'', ''MyMinecraftLauncher'', ''versions'', ''1.8.9'' @ ''.jar'']]"
    by (rule t [THEN conjunct2, THEN conjunct2, THEN conjunct2, THEN conjunct2, THEN conjunct2,
          THEN mp]) (intro conjI rej names jar)
  then have ex: "launch_classpath ''1.8.9'' [?A, ?B, ?C]
     = Inr [[''%LOCALAPPDATA%'', ''MyMinecraftLauncher'', ''libraries'', ''B-natives.jar''],
            [''%LOCALAPPDATA%'', ''MyMinecraftLauncher'', ''libraries'', ''B.jar''],
            [''%LOCALAPPDATA%'', ''MyMinecraftLauncher'', ''libraries'', ''C.jar''],
            [''%LOCALAPPDATA%'', ''MyMinecraftLauncher'', ''versions'', ''1.8.9.jar'']]"
    by simp
  from wf rej names jar urls ex cp lib cj show ?thesis by (intro conjI)
qed

section \<open>Profiles: the claims\<close>

text \<open>
  C4. For every profile name whose sanitized form is registered, a creation attempt with
  that name is refused and changes nothing: \<open>on_create\<close> rings the bell and does not call
  \<open>create_profile\<close>, so the directory tree, the marker file and the registry entry of the
  first profile stay as they are. This holds in particular in the state a successful first
  creation leaves, for every name with the same sanitized form. \<open>create_profile\<close> itself,
  called where the profile's \<open>.minecraft\<close> directory exists, raises \<open>FileExistsError\<close> from
  its first statement and changes nothing.
\<close>

theorem second_creation_refused:
  "(format_name name \<in> set (profiles s) \<longrightarrow> on_create acquire selection name s = (Bell, s))
   \<and> (create_profile acquire name version_id s = (None, s1) \<and> format_name name' = format_name name \<longrightarrow>
        on_create acquire' selection name' s1 = (Bell, s1))
   \<and> (exists_path (profile_dir (format_name name) @ [''.minecraft'']) s \<longrightarrow>
        create_profile acquire name version_id s = (Some FileExistsError, s))"
proof -
  have guard: "on_create a selection n t = (Bell, t)" if "format_name n \<in> set (profiles t)" for a n t
    using that by (simp add: on_create_def profile_exists_def split: option.splits)
  have a: "format_name name \<in> set (profiles s) \<longrightarrow> on_create acquire selection name s = (Bell, s)"
    using guard by blast
  have b: "create_profile acquire name version_id s = (None, s1) \<and> format_name name' = format_name name \<longrightarrow>
        on_create acquire' selection name' s1 = (Bell, s1)"
  proof
    assume h: "create_profile acquire name version_id s = (None, s1) \<and> format_name name' = format_name name"
    then have "format_name name' \<in> set (profiles s1)"
      using create_profile_registers [of acquire name version_id s s1] by simp
    then show "on_create acquire' selection name' s1 = (Bell, s1)" by (rule guard)
  qed
  have c: "exists_path (profile_dir (format_name name) @ [''.minecraft'']) s \<longrightarrow>
        create_profile acquire name version_id s = (Some FileExistsError, s)"
    by (simp add: create_profile_def mkdir_parents_def)
  from a b c show ?thesis by blast
qed

theorem second_creation_refused_witness:
  "create_profile acquire_cached ''My Profile'' ''1.8.9'' fresh_state
     = (None, snd (create_profile acquire_cached ''My Profile'' ''1.8.9'' fresh_state))
   \<and> on_create acquire_cached (Some ''1.8.9'') (CHR 0x20 # ''My Profile'')
       (snd (create_profile acquire_cached ''My Profile'' ''1.8.9'' fresh_state))
     = (Bell, snd (create_profile acquire_cached ''My Profile'' ''1.8.9'' fresh_state))
   \<and> on_create acquire_cached (Some ''1.8.9'') ''My Profile''
       (snd (create_profile acquire_cached ''My Profile'' ''1.8.9'' fresh_state))
     = (Bell, snd (create_profile acquire_cached ''My Profile'' ''1.8.9'' fresh_state))
   \<and> create_profile acquire_cached ''My Profile'' ''1.8.9''
       (snd (create_profile acquire_cached ''My Profile'' ''1.8.9'' fresh_state))
     = (Some FileExistsError, snd (create_profile acquire_cached ''My Profile'' ''1.8.9'' fresh_state))"
proof -
  let ?s1 = "snd (create_profile acquire_cached ''My Profile'' ''1.8.9'' fresh_state)"
  have first: "create_profile acquire_cached ''My Profile'' ''1.8.9'' fresh_state = (None, ?s1)"
    using first_creation(1) by (simp add: prod_eq_iff)
  have same: "format_name (CHR 0x20 # ''My Profile'') = format_name ''My Profile''"
    by (simp add: format_name_My_Profile)
  have reg: "format_name ''My Profile'' \<in> set (profiles ?s1)"
    by (simp add: first_creation(3) format_name_My_Profile)
  have dir: "exists_path (profile_dir (format_name ''My Profile'') @ [''.minecraft'']) ?s1"
    using first_creation(2) by (simp add: exists_path_def format_name_My_Profile)
  have r1: "on_create acquire_cached (Some ''1.8.9'') (CHR 0x20 # ''My Profile'') ?s1 = (Bell, ?s1)"
    by (rule second_creation_refused [of "''My Profile''" fresh_state acquire_cached
          "Some ''1.8.9''" "''1.8.9''" ?s1 "CHR 0x20 # ''My Profile''" acquire_cached,
          THEN conjunct2, THEN conjunct1, THEN mp])
      (intro conjI first same)
  have r2: "on_create acquire_cached (Some ''1.8.9'') ''My Profile'' ?s1 = (Bell, ?s1)"
    by (rule second_creation_refused [of "''My Profile''" ?s1 acquire_cached "Some ''1.8.9''",
          THEN conjunct1, THEN mp])
      (rule reg)
  have r3: "create_profile acquire_cached ''My Profile'' ''1.8.9'' ?s1 = (Some FileExistsError, ?s1)"
    by (rule second_creation_refused [of "''My Profile''" ?s1 acquire_cached "Some ''1.8.9''" "''1.8.9''",
          THEN conjunct2, THEN conjunct2, THEN mp])
      (rule dir)
  from first r1 r2 r3 show ?thesis by (intro conjI)
qed


text \<open>
  C5, as the code has it. For every name whose sanitized form does not start with a drive
  (a colon in second place), \<open>delete_profile\<close> sanitizes the name and removes the directory
  \<^verbatim>\<open>PROFILES_DIRECTORY / name\<close> with all that is under it; this is the directory of that
  name in the profiles directory, and the profiles directory itself when the sanitized name
  is empty or \<open>.\<close>. It then removes the first occurrence of the sanitized name from the
  registry when the name is registered and leaves the registry as it is when it is not.
  When the directory does not exist it raises \<open>FileNotFoundError\<close> (\<open>NotADirectoryError\<close>
  when a file is in its place) and changes nothing, whether the name is registered or not.
\<close>

theorem delete_profile_effect:
  "(\<not> drive_prefixed (format_name name) \<longrightarrow>
      profile_dir (format_name name) =
        (if format_name name = [] \<or> format_name name = ''.''
         then [''%LOCALAPPDATA%'', ''MyMinecraftLauncher'', ''profiles'']
         else [''%LOCALAPPDATA%'', ''MyMinecraftLauncher'', ''profiles'', format_name name]))
   \<and> (\<not> drive_prefixed (format_name name) \<and> profile_dir (format_name name) \<in> dirs s \<longrightarrow>
      delete_profile name s =
        (None, s\<lparr>dirs := {q \<in> dirs s. \<not> prefix (profile_dir (format_name name)) q},
                 files := (\<lambda>q. if prefix (profile_dir (format_name name)) q then None else files s q),
                 profiles := remove1 (format_name name) (profiles s)\<rparr>))
   \<and> (\<not> drive_prefixed (format_name name) \<and> profile_dir (format_name name) \<in> dirs s
        \<and> format_name name \<notin> set (profiles s) \<longrightarrow>
        profiles (snd (delete_profile name s)) = profiles s)
   \<and> (\<not> drive_prefixed (format_name name) \<and> profile_dir (format_name name) \<notin> dirs s \<longrightarrow>
        delete_profile name s =
          (Some (if files s (profile_dir (format_name name)) \<noteq> None
                 then NotADirectoryError else FileNotFoundError), s))"
proof -
  let ?n = "format_name name"
  let ?d = "profile_dir ?n"
  have p: "\<not> drive_prefixed ?n \<longrightarrow>
      ?d = (if ?n = [] \<or> ?n = ''.''
         then [''%LOCALAPPDATA%'', ''MyMinecraftLauncher'', ''profiles'']
         else [''%LOCALAPPDATA%'', ''MyMinecraftLauncher'', ''profiles'', ?n])"
    using profile_dir_path [of ?n] by simp
  have a: "\<not> drive_prefixed ?n \<and> ?d \<in> dirs s \<longrightarrow>
      delete_profile name s =
        (None, s\<lparr>dirs := {q \<in> dirs s. \<not> prefix ?d q},
                 files := (\<lambda>q. if prefix ?d q then None else files s q),
                 profiles := remove1 ?n (profiles s)\<rparr>)"
    by (simp add: delete_profile_def Let_def rmtree_def remove1_absent)
  have b: "\<not> drive_prefixed ?n \<and> ?d \<in> dirs s \<and> ?n \<notin> set (profiles s) \<longrightarrow>
        profiles (snd (delete_profile name s)) = profiles s"
    by (simp add: delete_profile_def Let_def rmtree_def)
  have c: "\<not> drive_prefixed ?n \<and> ?d \<notin> dirs s \<longrightarrow>
        delete_profile name s =
          (Some (if files s ?d \<noteq> None then NotADirectoryError else FileNotFoundError), s)"
    by (simp add: delete_profile_def Let_def rmtree_def)
  from p a b c show ?thesis by (intro conjI)
qed

theorem delete_profile_effect_witness:
  "\<not> drive_prefixed (format_name ''My Profile'')
   \<and> profile_dir (format_name ''My Profile'')
       = [''%LOCALAPPDATA%'', ''MyMinecraftLauncher'', ''profiles'', ''My Profile'']
   \<and> profile_dir (format_name ''My Profile'')
     \<in> dirs (snd (create_profile acquire_cached ''My Profile'' ''1.8.9'' fresh_state))
   \<and> fst (delete_profile ''My Profile''
            (snd (create_profile acquire_cached ''My Profile'' ''1.8.9'' fresh_state))) = None
   \<and> profiles (snd (delete_profile ''My Profile''
            (snd (create_profile acquire_cached ''My Profile'' ''1.8.9'' fresh_state)))) = []
   \<and> files (snd (delete_profile ''My Profile''
            (snd (create_profile acquire_cached ''My Profile'' ''1.8.9'' fresh_state))))
         [''%LOCALAPPDATA%'', ''MyMinecraftLauncher'', ''profiles'', ''My Profile'', ''.VERSION'']
       = None
   \<and> \<not> drive_prefixed (format_name ''ghost'')
   \<and> profile_dir (format_name ''ghost'') \<notin> dirs fresh_state
   \<and> delete_profile ''ghost'' fresh_state = (Some FileNotFoundError, fresh_state)
   \<and> \<not> drive_prefixed (format_name ''stray'')
   \<and> profile_dir (format_name ''stray'') \<in> dirs (add_dirs (profile_dir ''stray'') fresh_state)
   \<and> format_name ''stray'' \<notin> set (profiles (add_dirs (profile_dir ''stray'') fresh_state))
   \<and> profiles (snd (delete_profile ''stray'' (add_dirs (profile_dir ''stray'') fresh_state))) = []
   \<and> \<not> drive_prefixed (format_name [CHR 0x20])
   \<and> profile_dir (format_name [CHR 0x20]) = [''%LOCALAPPDATA%'', ''MyMinecraftLauncher'', ''profiles'']
   \<and> profile_dir (format_name [CHR 0x20]) \<in> dirs fresh_state
   \<and> fst (delete_profile [CHR 0x20] fresh_state) = None
   \<and> [''%LOCALAPPDATA%'', ''MyMinecraftLauncher'', ''profiles'']
       \<notin> dirs (snd (delete_profile [CHR 0x20] fresh_state))"
proof -
  let ?s1 = "snd (create_profile acquire_cached ''My Profile'' ''1.8.9'' fresh_state)"
  let ?s2 = "add_dirs (profile_dir ''stray'') fresh_state"
  let ?P = "[''%LOCALAPPDATA%'', ''MyMinecraftLauncher'', ''profiles'']"
  have names: "format_name ''ghost'' = ''ghost''" "format_name ''stray'' = ''stray''"
    "format_name [CHR 0x20] = []"
    by (simp_all add: format_name_def str_strip_def str_replace_def isspace_def)
  have nd: "\<not> drive_prefixed (format_name ''My Profile'')" "\<not> drive_prefixed (format_name ''ghost'')"
    "\<not> drive_prefixed (format_name ''stray'')" "\<not> drive_prefixed (format_name [CHR 0x20])"
    by (simp_all add: names format_name_My_Profile drive_prefixed_def)
  have "profile_dir (format_name ''My Profile'') =
        (if format_name ''My Profile'' = [] \<or> format_name ''My Profile'' = ''.'' then ?P
         else ?P @ [format_name ''My Profile''])"
    using delete_profile_effect [of "''My Profile''" fresh_state, THEN conjunct1, THEN mp, OF nd(1)]
    by simp
  then have p1: "profile_dir (format_name ''My Profile'') = ?P @ [''My Profile'']"
    by (simp add: format_name_My_Profile)
  have d1: "profile_dir (format_name ''My Profile'') \<in> dirs ?s1"
    by (simp add: create_profile_def Let_def format_name_My_Profile fresh_state_def
      acquire_cached_def fs_defs profile_dir_def joinpath_def path_defs upt_rec)
  have "delete_profile ''My Profile'' ?s1 =
        (None, ?s1\<lparr>dirs := {q \<in> dirs ?s1. \<not> prefix (profile_dir (format_name ''My Profile'')) q},
                 files := (\<lambda>q. if prefix (profile_dir (format_name ''My Profile'')) q then None
                                else files ?s1 q),
                 profiles := remove1 (format_name ''My Profile'') (profiles ?s1)\<rparr>)"
    by (rule delete_profile_effect [of "''My Profile''" ?s1, THEN conjunct2, THEN conjunct1, THEN mp])
      (intro conjI nd(1) d1)
  then have r1: "fst (delete_profile ''My Profile'' ?s1) = None"
    and r2: "profiles (snd (delete_profile ''My Profile'' ?s1)) = []"
    and r3: "files (snd (delete_profile ''My Profile'' ?s1)) (?P @ [''My Profile'', ''.VERSION'']) = None"
    by (simp_all add: first_creation(3) format_name_My_Profile p1 [unfolded format_name_My_Profile])
  have d2: "profile_dir (format_name ''ghost'') \<notin> dirs fresh_state"
    by (simp add: names fresh_state_def profile_dir_def joinpath_def path_defs)
  have f2: "files fresh_state (profile_dir (format_name ''ghost'')) = None"
    by (simp add: fresh_state_def)
  have "delete_profile ''ghost'' fresh_state =
          (Some (if files fresh_state (profile_dir (format_name ''ghost'')) \<noteq> None
                 then NotADirectoryError else FileNotFoundError), fresh_state)"
    by (rule delete_profile_effect [of "''ghost''" fresh_state, THEN conjunct2, THEN conjunct2,
          THEN conjunct2, THEN mp])
      (intro conjI nd(2) d2)
  then have r4: "delete_profile ''ghost'' fresh_state = (Some FileNotFoundError, fresh_state)"
    by (simp add: f2)
  have d3: "profile_dir (format_name ''stray'') \<in> dirs ?s2"
    by (simp add: names add_dirs_def)
  have n3: "format_name ''stray'' \<notin> set (profiles ?s2)"
    by (simp add: add_dirs_def fresh_state_def)
  have "profiles (snd (delete_profile ''stray'' ?s2)) = profiles ?s2"
    by (rule delete_profile_effect [of "''stray''" ?s2, THEN conjunct2, THEN conjunct2,
          THEN conjunct1, THEN mp])
      (intro conjI nd(3) d3 n3)
  then have r5: "profiles (snd (delete_profile ''stray'' ?s2)) = []"
    by (simp add: add_dirs_def fresh_state_def)
  have "profile_dir (format_name [CHR 0x20]) =
        (if format_name [CHR 0x20] = [] \<or> format_name [CHR 0x20] = ''.'' then ?P
         else ?P @ [format_name [CHR 0x20]])"
    using delete_profile_effect [of "[CHR 0x20]" fresh_state, THEN conjunct1, THEN mp, OF nd(4)]
    by simp
  then have p4: "profile_dir (format_name [CHR 0x20]) = ?P"
    by (simp add: names)
  have d4: "profile_dir (format_name [CHR 0x20]) \<in> dirs fresh_state"
    unfolding p4 by (simp add: fresh_state_def path_defs)
  have "delete_profile [CHR 0x20] fresh_state =
        (None, fresh_state\<lparr>dirs := {q \<in> dirs fresh_state. \<not> prefix (profile_dir (format_name [CHR 0x20])) q},
                 files := (\<lambda>q. if prefix (profile_dir (format_name [CHR 0x20])) q then None
                                else files fresh_state q),
                 profiles := remove1 (format_name [CHR 0x20]) (profiles fresh_state)\<rparr>)"
    by (rule delete_profile_effect [of "[CHR 0x20]" fresh_state, THEN conjunct2, THEN conjunct1, THEN mp])
      (intro conjI nd(4) d4)
  then have r6: "fst (delete_profile [CHR 0x20] fresh_state) = None"
    and r7: "?P \<notin> dirs (snd (delete_profile [CHR 0x20] fresh_state))"
    by (simp_all add: p4)
  from nd p1 d1 r1 r2 r3 d2 r4 d3 n3 r5 p4 d4 r6 r7 show ?thesis by simp
qed

text \<open>
  C5 as stated fails: for a name that is not registered and has no directory,
  \<open>delete_profile\<close> is not a silent no-op but raises \<open>FileNotFoundError\<close>.
\<close>

theorem delete_unregistered_counterexample:
  "format_name ''ghost'' \<notin> set (profiles fresh_state)
   \<and> delete_profile ''ghost'' fresh_state = (Some FileNotFoundError, fresh_state)"
  by (simp add: delete_profile_def Let_def rmtree_def fresh_state_def profile_dir_def joinpath_def path_defs
      format_name_def str_strip_def str_replace_def isspace_def)



section \<open>Template substitution: the claims\<close>

text \<open>
  C2 does not hold for every input string. A dollar sign that is the last character of the
  string is a literal dollar sign not followed by an opening brace, and it is not copied:
  \<^verbatim>\<open>next(iterator)\<close> raises \<open>StopIteration\<close>, for the string \<open>$\<close> and for \<open>100$\<close>. The
  character read after a dollar sign is consumed as well, so in \<open>$${name}\<close> the placeholder
  is copied and not replaced.
\<close>

theorem format_template_lone_dollar_raises:
  "format_template (\<lambda>v. v) [''name'' \<mapsto> ''Steve''] ''$'' = Inl StopIteration
   \<and> format_template (\<lambda>v. v) [''name'' \<mapsto> ''Steve''] ''100$'' = Inl StopIteration
   \<and> format_template (\<lambda>v. v) [''name'' \<mapsto> ''Steve''] ''$${name}'' = Inr ''$${name}''"
proof -
  have a: "format_template (\<lambda>v. v) [''name'' \<mapsto> ''Steve''] ''$'' = Inl StopIteration"
    by (simp add: format_template_def)
  have b: "format_template (\<lambda>v. v) [''name'' \<mapsto> ''Steve''] ''100$'' = Inl StopIteration"
    by (simp add: format_template_def)
  have c: "format_template (\<lambda>v. v) [''name'' \<mapsto> ''Steve''] ''$${name}'' = Inr ''$${name}''"
    by (simp add: format_template_def)
  from a b c show ?thesis by (intro conjI)
qed

section \<open>The asset store: the claims\<close>




section \<open>The Java runtime: the claims\<close>

text \<open>
  C8. \<open>download_java\<close> has a registry of exactly the major versions 8 and 17. For every
  other major version it raises \<open>KeyError\<close> and changes nothing. For a version of the
  registry whose installation directory exists it does nothing: no URL is opened and the
  state is unchanged. Otherwise, with the network delivering the archive, the temporary
  directory there and nothing in the way of the members, it opens the fixed URL of the
  version once, extracts every member of the archive below the Java directory, and deletes
  the downloaded archive.
\<close>

theorem download_java_registry:
  "(v \<noteq> 8 \<and> v \<noteq> 17 \<longrightarrow> download_java net unzip v s = (Some (KeyErrorInt v), s))
   \<and> (v = 8 \<or> v = 17 \<longrightarrow> (\<exists>jd u. JRE_DIRECTORIES v = Some jd \<and> JRE_DOWNLOAD_URLS v = Some u))
   \<and> (JRE_DIRECTORIES v = Some jd \<and> exists_path jd s \<longrightarrow> download_java net unzip v s = (None, s))
   \<and> (JRE_DIRECTORIES v = Some jd \<and> JRE_DOWNLOAD_URLS v = Some u \<and> \<not> exists_path jd s
        \<and> net u = Body b \<and> unzip b = Some ms
        \<and> TEMP_DIRECTORY \<in> dirs s \<and> zip_path u \<notin> dirs s \<and> extractable JAVA_DIRECTORY ms s \<longrightarrow>
        (\<exists>s'. download_java net unzip v s = (None, s')
           \<and> fetched s' = fetched s @ [u]
           \<and> (\<forall>m \<in> set ms. files s' (JAVA_DIRECTORY @ fst m) = Some (snd m))
           \<and> files s' (zip_path u) = None))"
proof -
  have a: "v \<noteq> 8 \<and> v \<noteq> 17 \<longrightarrow> download_java net unzip v s = (Some (KeyErrorInt v), s)"
  proof
    assume "v \<noteq> 8 \<and> v \<noteq> 17"
    then have "JRE_DIRECTORIES v = None" by (simp add: JRE_registry)
    then show "download_java net unzip v s = (Some (KeyErrorInt v), s)"
      by (simp add: download_java_def)
  qed
  have b: "v = 8 \<or> v = 17 \<longrightarrow> (\<exists>jd u. JRE_DIRECTORIES v = Some jd \<and> JRE_DOWNLOAD_URLS v = Some u)"
    using JRE_registry [of v] by auto
  have c: "JRE_DIRECTORIES v = Some jd \<and> exists_path jd s \<longrightarrow> download_java net unzip v s = (None, s)"
    by (simp add: download_java_def)
  have d: "JRE_DIRECTORIES v = Some jd \<and> JRE_DOWNLOAD_URLS v = Some u \<and> \<not> exists_path jd s
        \<and> net u = Body b \<and> unzip b = Some ms
        \<and> TEMP_DIRECTORY \<in> dirs s \<and> zip_path u \<notin> dirs s \<and> extractable JAVA_DIRECTORY ms s \<longrightarrow>
        (\<exists>s'. download_java net unzip v s = (None, s')
           \<and> fetched s' = fetched s @ [u]
           \<and> (\<forall>m \<in> set ms. files s' (JAVA_DIRECTORY @ fst m) = Some (snd m))
           \<and> files s' (zip_path u) = None)"
    using download_java_fresh [of v jd u s net b unzip ms] by blast
  from a b c d show ?thesis by (intro conjI)
qed

theorem download_java_registry_witness:
  "download_java (\<lambda>u. Body ''PK'')
       (\<lambda>b. Some [([''jdk8u392-b08-jre'', ''bin'', ''java.exe''], ''MZ'')]) 16 fresh_state
     = (Some (KeyErrorInt 16), fresh_state)
   \<and> download_java (\<lambda>u. ConnectFail) (\<lambda>b. None) 17
       (add_dirs (JAVA_DIRECTORY @ [''jdk-17.0.9+9-jre''] @ [''bin'']) fresh_state)
     = (None, add_dirs (JAVA_DIRECTORY @ [''jdk-17.0.9+9-jre''] @ [''bin'']) fresh_state)
   \<and> (\<exists>s'. download_java (\<lambda>u. Body ''PK'')
              (\<lambda>b. Some [([''jdk8u392-b08-jre'', ''bin'', ''java.exe''], ''MZ'')]) 8 fresh_state
            = (None, s')
          \<and> fetched s' = [the (JRE_DOWNLOAD_URLS 8)]
          \<and> files s' (JAVA_DIRECTORY @ [''jdk8u392-b08-jre'', ''bin'', ''java.exe'']) = Some ''MZ''
          \<and> files s' (zip_path (the (JRE_DOWNLOAD_URLS 8))) = None)"
proof -
  let ?net = "\<lambda>u::string. Body ''PK''"
  let ?ms = "[([''jdk8u392-b08-jre'', ''bin'', ''java.exe''], ''MZ'')]"
  let ?unzip = "\<lambda>b::string. Some ?ms"
  let ?u = "the (JRE_DOWNLOAD_URLS 8)"
  let ?jd8 = "JAVA_DIRECTORY @ [''jdk8u392-b08-jre''] @ [''bin'']"
  let ?jd17 = "JAVA_DIRECTORY @ [''jdk-17.0.9+9-jre''] @ [''bin'']"
  have r1: "download_java ?net ?unzip 16 fresh_state = (Some (KeyErrorInt 16), fresh_state)"
    by (rule download_java_registry [where v = 16, THEN conjunct1, THEN mp]) simp
  have jd17: "JRE_DIRECTORIES 17 = Some ?jd17" by (simp add: JRE_DIRECTORIES_def)
  have ex17: "exists_path ?jd17 (add_dirs ?jd17 fresh_state)"
    by (simp add: exists_path_def add_dirs_def)
  have r2: "download_java (\<lambda>u. ConnectFail) (\<lambda>b. None) 17 (add_dirs ?jd17 fresh_state)
      = (None, add_dirs ?jd17 fresh_state)"
    by (rule download_java_registry [where v = 17 and jd = ?jd17, THEN conjunct2, THEN conjunct2,
          THEN conjunct1, THEN mp])
      (intro conjI jd17 ex17)
  have jd8: "JRE_DIRECTORIES 8 = Some ?jd8" by (simp add: JRE_DIRECTORIES_def)
  have u8: "JRE_DOWNLOAD_URLS 8 = Some ?u" by (simp add: JRE_DOWNLOAD_URLS_def)
  have absent: "\<not> exists_path ?jd8 fresh_state"
    by (simp add: exists_path_def fresh_state_def path_defs)
  have net: "?net ?u = Body ''PK''" by simp
  have unzip: "?unzip ''PK'' = Some ?ms" by simp
  have temp: "TEMP_DIRECTORY \<in> dirs fresh_state" by (simp add: fresh_state_def)
  have zd: "zip_path ?u \<notin> dirs fresh_state"
    by (simp add: fresh_state_def zip_path_def path_defs)
  have ext: "extractable JAVA_DIRECTORY ?ms fresh_state"
    by (simp add: extractable_def file_above_def list_ex_iff fresh_state_def path_defs)
  have "\<exists>s'. download_java ?net ?unzip 8 fresh_state = (None, s')
           \<and> fetched s' = fetched fresh_state @ [?u]
           \<and> (\<forall>m \<in> set ?ms. files s' (JAVA_DIRECTORY @ fst m) = Some (snd m))
           \<and> files s' (zip_path ?u) = None"
    by (rule download_java_registry [where v = 8 and jd = ?jd8 and u = ?u and b = "''PK''"
          and ms = ?ms, THEN conjunct2, THEN conjunct2, THEN conjunct2, THEN mp])
      (intro conjI jd8 u8 absent net unzip temp zd ext)
  then have r3: "\<exists>s'. download_java ?net ?unzip 8 fresh_state = (None, s')
          \<and> fetched s' = [?u]
          \<and> files s' (JAVA_DIRECTORY @ [''jdk8u392-b08-jre'', ''bin'', ''java.exe'']) = Some ''MZ''
          \<and> files s' (zip_path ?u) = None"
    by (simp add: fresh_state_def)
  from r1 r2 r3 show ?thesis by (intro conjI)
qed

end
